theory Spec2Isabelle
  imports Main
begin

section \<open>Data model of the commanding surface\<close>

text \<open>
  The embedding follows \<^verbatim>\<open>_CommandingSurface\<close> (the class that follows the constants in
  \<^verbatim>\<open>src/js/WinJS/Controls/CommandingSurface/_Constants.ts\<close>).

  Conventions of the embedding:
  \<^item> a command object is identified by the unique id of its element
    (\<^verbatim>\<open>_commandUniqueId\<close>); the mutable \<^verbatim>\<open>element.style.display\<close> strings live in a
    store indexed by that id, so that two references to one command see one display value;
  \<^item> widths and priorities are JavaScript numbers that hold integers; they are modelled by
    \<^typ>\<open>int\<close>. A value that may be \<^verbatim>\<open>undefined\<close> (and becomes \<^verbatim>\<open>NaN\<close> in arithmetic) is an
    \<^typ>\<open>int option\<close> with \<^term>\<open>None\<close> for \<^verbatim>\<open>undefined\<close>/\<^verbatim>\<open>NaN\<close>. Widths are pixel counts, far
    below \<open>2^53\<close>, where arithmetic on doubles is exact; a priority is any number the caller
    gives, so \<^verbatim>\<open>priority - 1\<close> is modelled with its rounding (\<open>jsMinusOne\<close>);
  \<^item> \<^verbatim>\<open>Array.prototype.sort\<close> is taken to be stable, as ECMAScript requires.
\<close>

datatype ctype = Separator | Content | Button | Toggle | Flyout

record ICommand =
  cmd_id :: nat
  cmd_type :: ctype
  cmd_section :: string
  cmd_priority :: "int option"
  cmd_hidden :: bool

record ICommandInfo =
  command :: ICommand
  width :: "int option"
  priority :: int

record 'e ICommandWithType =
  element :: 'e
  etype :: ctype

record Measurements =
  overflowButtonWidth :: int
  separatorWidth :: int
  standardCommandWidth :: int
  contentCommandWidths :: "nat \<rightharpoonup> int"
  actionAreaContentBoxWidth :: int

record Location =
  actionArea :: "ICommand list"
  overflowArea :: "ICommand list"

type_synonym 'e display = "'e \<Rightarrow> string"

text \<open>
  The menu command that \<^verbatim>\<open>_projectAsMenuCommand\<close> builds for the overflow area; the synthetic
  separator between overflowed primary commands and secondary commands has no original.
\<close>

record MenuCommand =
  mc_type :: ctype
  mc_original :: "ICommand option"

text \<open>
  What \<^verbatim>\<open>_measure\<close> and \<^verbatim>\<open>_resizeHandler\<close> read from the document: whether the root is in
  the body, the layout widths of the root, of the action area and of the overflow button,
  and the total width each command element has once its inline display is cleared.
\<close>

record Dom =
  rootInBody :: bool
  rootOffsetWidth :: int
  actionAreaOffsetWidth :: int
  overflowButtonTotalWidth :: int
  actionAreaContentWidth :: int
  commandTotalWidth :: "nat \<Rightarrow> int"

text \<open>
  The private state of the control. \<open>updateDomCalls\<close> counts the calls of
  \<^verbatim>\<open>this._machine.updateDom()\<close>, the request to render again; the state machine itself
  is outside this file.
\<close>

record Surface =
  primaryCommands :: "ICommand list"
  secondaryCommands :: "ICommand list"
  cachedMeasurements :: "Measurements option"
  nextLayoutStage :: nat
  closedDisplayMode :: string
  elementDisplay :: "nat display"
  overflowButtonDisplay :: string
  overflowAreaChildren :: "MenuCommand list"
  overflowAreaDisplay :: "nat display"
  hasToggleClass :: bool
  hasFlyoutClass :: bool
  updateDomCalls :: nat

datatype error = TypeError

section \<open>Priority partition\<close>

text \<open>\<^verbatim>\<open>_getCommandWidth\<close>: a content command without an entry in the map reads \<^verbatim>\<open>undefined\<close>.\<close>

definition getCommandWidth :: "Measurements \<Rightarrow> ICommand \<Rightarrow> int option" where
  "getCommandWidth m c =
     (if cmd_type c = Content then contentCommandWidths m (cmd_id c)
      else if cmd_type c = Separator then Some (separatorWidth m)
      else Some (standardCommandWidth m))"

text \<open>
  \<^verbatim>\<open>_getCommandsInfo\<close>: the loop runs over the primary commands from the last index down to
  0. The first argument below is the part of the list not yet visited, last command first;
  \<open>cur\<close> is \<^verbatim>\<open>currentAssignedPriority\<close> and \<open>acc\<close> the array built by \<^verbatim>\<open>unshift\<close>.
\<close>

fun getCommandsInfo_loop ::
  "Measurements \<Rightarrow> nat display \<Rightarrow> ICommand list \<Rightarrow> int \<Rightarrow> ICommandInfo list \<Rightarrow> ICommandInfo list"
where
  "getCommandsInfo_loop m d [] cur acc = acc"
| "getCommandsInfo_loop m d (c # rest) cur acc =
     (let w = (if d (cmd_id c) = ''none'' then Some 0 else getCommandWidth m c)
      in case cmd_priority c of
           None \<Rightarrow>
             getCommandsInfo_loop m d rest (cur - 1)
               (\<lparr>command = c, width = w, priority = cur\<rparr> # acc)
         | Some p \<Rightarrow>
             getCommandsInfo_loop m d rest cur
               (\<lparr>command = c, width = w, priority = p\<rparr> # acc))"

definition getCommandsInfo :: "Measurements \<Rightarrow> nat display \<Rightarrow> ICommand list \<Rightarrow> ICommandInfo list" where
  "getCommandsInfo m d primary = getCommandsInfo_loop m d (rev primary) 0 []"

text \<open>\<^verbatim>\<open>maxPriority\<close> is \<^verbatim>\<open>Number.MAX_VALUE\<close> or a priority minus one.\<close>

datatype maxprio = MAX_VALUE | Prio int

fun le_maxPriority :: "int \<Rightarrow> maxprio \<Rightarrow> bool" where
  "le_maxPriority p MAX_VALUE = True"
| "le_maxPriority p (Prio q) = (p \<le> q)"

text \<open>JavaScript subtraction and \<^verbatim>\<open>< 0\<close> on numbers that may be \<^verbatim>\<open>NaN\<close>.\<close>

fun jsSub :: "int option \<Rightarrow> int option \<Rightarrow> int option" where
  "jsSub (Some a) (Some b) = Some (a - b)"
| "jsSub _ _ = None"

fun jsNegative :: "int option \<Rightarrow> bool" where
  "jsNegative (Some a) = (a < 0)"
| "jsNegative None = False"

text \<open>
  \<^verbatim>\<open>priority - 1\<close> on doubles is the double nearest to the exact difference, a tie going to
  the even significand. For a double \<open>p\<close> that holds an integer: up to \<open>2^53\<close>
  (9007199254740992) in absolute value every integer is a double and the difference is
  exact, with the one exception of \<open>- 2^53\<close>, whose predecessor is not a double; from there up
  to \<open>2^54\<close> the doubles are the even integers, \<open>p - 1\<close> lies half way between two of them and
  the multiple of 4 wins; beyond, \<open>p\<close> itself is the double nearest to \<open>p - 1\<close>.
\<close>

definition nearestEven :: "int \<Rightarrow> int" where
  "nearestEven x = (if x mod 4 = 1 then x - 1 else if x mod 4 = 3 then x + 1 else x)"

definition jsMinusOne :: "int \<Rightarrow> int" where
  "jsMinusOne p =
     (if - 9007199254740992 < p \<and> p \<le> 9007199254740992 then p - 1
      else if - 18014398509481984 < p \<and> p < 18014398509481984 then nearestEven (p - 1)
      else p)"

text \<open>
  The \<^verbatim>\<open>for\<close> loop of \<^verbatim>\<open>_getPrimaryCommandsLocation\<close> over \<^verbatim>\<open>sortedCommandsInfo\<close>. The list
  argument is the part of the sorted array from index \<open>i\<close> on, so \<^verbatim>\<open>i < len - 1\<close> is
  \<open>rest \<noteq> []\<close>; the last argument is \<^verbatim>\<open>availableWidth\<close> before the step.
\<close>

fun findMaxPriority :: "bool \<Rightarrow> int \<Rightarrow> ICommandInfo list \<Rightarrow> int option \<Rightarrow> maxprio" where
  "findMaxPriority hasSecondaryCommands obw [] availableWidth = MAX_VALUE"
| "findMaxPriority hasSecondaryCommands obw (ci # rest) availableWidth =
     (let availableWidth' = jsSub availableWidth (width ci);
          overflowButtonSpace = (if hasSecondaryCommands \<or> rest \<noteq> [] then obw else 0)
      in if jsNegative (jsSub availableWidth' (Some overflowButtonSpace))
         then Prio (jsMinusOne (priority ci))
         else findMaxPriority hasSecondaryCommands obw rest availableWidth')"

definition sortedCommandsInfo :: "ICommandInfo list \<Rightarrow> ICommandInfo list" where
  "sortedCommandsInfo commandsInfo = sort_key priority commandsInfo"

definition getPrimaryCommandsLocation ::
  "Measurements \<Rightarrow> nat display \<Rightarrow> ICommand list \<Rightarrow> ICommand list \<Rightarrow> Location"
where
  "getPrimaryCommandsLocation m d primary secondary =
     (let hasSecondaryCommands = (secondary \<noteq> []);
          commandsInfo = getCommandsInfo m d primary;
          maxPriority = findMaxPriority hasSecondaryCommands (overflowButtonWidth m)
                          (sortedCommandsInfo commandsInfo) (Some (actionAreaContentBoxWidth m))
      in \<lparr>actionArea = map command (filter (\<lambda>ci. le_maxPriority (priority ci) maxPriority) commandsInfo),
          overflowArea = map command (filter (\<lambda>ci. \<not> le_maxPriority (priority ci) maxPriority) commandsInfo)\<rparr>)"


section \<open>Separators\<close>

text \<open>
  \<^verbatim>\<open>_hideSeparatorsIfNeeded\<close>. The first loop carries \<^verbatim>\<open>prevType\<close>, initially the separator
  type; the second runs from the last index down and stops at the first command that is
  not a separator, so its list argument is the array reversed. The array itself is never
  changed: only displays in the store are.
\<close>

fun hideLeadingOrConsecutive ::
  "ctype \<Rightarrow> 'e ICommandWithType list \<Rightarrow> 'e display \<Rightarrow> 'e display"
where
  "hideLeadingOrConsecutive prevType [] d = d"
| "hideLeadingOrConsecutive prevType (c # cs) d =
     hideLeadingOrConsecutive (etype c) cs
       (if etype c = Separator \<and> prevType = Separator then d(element c := ''none'') else d)"

fun hideTrailing :: "'e ICommandWithType list \<Rightarrow> 'e display \<Rightarrow> 'e display" where
  "hideTrailing [] d = d"
| "hideTrailing (c # cs) d =
     (if etype c = Separator then hideTrailing cs (d(element c := ''none'')) else d)"

definition hideSeparatorsIfNeeded :: "'e ICommandWithType list \<Rightarrow> 'e display \<Rightarrow> 'e display" where
  "hideSeparatorsIfNeeded commands d =
     hideTrailing (rev commands) (hideLeadingOrConsecutive Separator commands d)"

section \<open>Measurement\<close>

text \<open>
  The \<^verbatim>\<open>forEach\<close> of \<^verbatim>\<open>_measure\<close> over the primary commands. Each step clears the inline
  display of the element, measures, and restores the display it saved. \<^verbatim>\<open>!separatorWidth\<close>
  holds when the variable is still 0.
\<close>

fun measure_loop ::
  "Dom \<Rightarrow> ICommand list \<Rightarrow> nat display \<times> int \<times> int \<times> (nat \<rightharpoonup> int)
     \<Rightarrow> nat display \<times> int \<times> int \<times> (nat \<rightharpoonup> int)"
where
  "measure_loop doc [] acc = acc"
| "measure_loop doc (c # cs) (d, sepW, stdW, contentW) =
     (let originalDisplayStyle = d (cmd_id c);
          d1 = d(cmd_id c := []);
          w = commandTotalWidth doc (cmd_id c);
          contentW2 = (if cmd_type c = Content then contentW(cmd_id c \<mapsto> w) else contentW);
          sepW2 = (if cmd_type c \<noteq> Content \<and> cmd_type c = Separator \<and> sepW = 0 then w else sepW);
          stdW2 = (if cmd_type c \<noteq> Content \<and> cmd_type c \<noteq> Separator \<and> stdW = 0 then w else stdW);
          d2 = d1(cmd_id c := originalDisplayStyle)
      in measure_loop doc cs (d2, sepW2, stdW2, contentW2))"

definition measureSurface :: "Dom \<Rightarrow> Surface \<Rightarrow> bool \<times> Surface" where
  "measureSurface doc s =
     (let canMeasure = (rootInBody doc \<and> actionAreaOffsetWidth doc > 0)
      in if canMeasure then
           (case measure_loop doc (primaryCommands s) (elementDisplay s, 0, 0, Map.empty) of
              (d, sepW, stdW, contentW) \<Rightarrow>
                (True,
                 s\<lparr>elementDisplay := d,
                   cachedMeasurements := Some
                     \<lparr>overflowButtonWidth = overflowButtonTotalWidth doc,
                      separatorWidth = sepW,
                      standardCommandWidth = stdW,
                      contentCommandWidths = contentW,
                      actionAreaContentBoxWidth = actionAreaContentWidth doc\<rparr>\<rparr>))
         else (False, s))"

section \<open>Layout\<close>

text \<open>
  \<^verbatim>\<open>_projectAsMenuCommand\<close>: a content command is projected as a flyout menu command. Labels,
  click handlers and the other mirrored properties are not part of the embedding.
\<close>

definition projectAsMenuCommand :: "ICommand \<Rightarrow> MenuCommand" where
  "projectAsMenuCommand originalCommand =
     \<lparr>mc_type = (if cmd_type originalCommand = Content then Flyout else cmd_type originalCommand),
      mc_original = Some originalCommand\<rparr>"

definition commandWithType :: "ICommand \<Rightarrow> nat ICommandWithType" where
  "commandWithType c = \<lparr>element = cmd_id c, etype = cmd_type c\<rparr>"

text \<open>
  The elements of the menu commands are created during the pass; in the overflow area they
  are identified by their position, and a new element has the empty inline display.
\<close>

definition menuCommandsWithType :: "MenuCommand list \<Rightarrow> nat ICommandWithType list" where
  "menuCommandsWithType ps = map (\<lambda>(i, p). \<lparr>element = i, etype = mc_type p\<rparr>) (enumerate 0 ps)"

definition menuCommandProjections :: "ICommand list \<Rightarrow> ICommand list \<Rightarrow> MenuCommand list" where
  "menuCommandProjections overflowCommands secondary =
     map projectAsMenuCommand overflowCommands
     @ (if overflowCommands \<noteq> [] \<and> secondary \<noteq> []
        then [\<lparr>mc_type = Separator, mc_original = None\<rparr>] else [])
     @ map projectAsMenuCommand (filter (\<lambda>c. \<not> cmd_hidden c) secondary)"

text \<open>
  \<^verbatim>\<open>_layoutCommands\<close> once the measurements are at hand; \<open>resetPrimaryDisplay\<close> is its
  first \<^verbatim>\<open>forEach\<close>. The creation of the content flyout is left out.
\<close>

definition resetPrimaryDisplay :: "ICommand list \<Rightarrow> nat display \<Rightarrow> nat display" where
  "resetPrimaryDisplay primary d =
     fold (\<lambda>c d. d(cmd_id c := (if cmd_hidden c then ''none'' else []))) primary d"

definition layoutWith :: "Measurements \<Rightarrow> Surface \<Rightarrow> Surface" where
  "layoutWith m s =
     (let d1 = resetPrimaryDisplay (primaryCommands s) (elementDisplay s);
          primaryCommandsLocation =
            getPrimaryCommandsLocation m d1 (primaryCommands s) (secondaryCommands s);
          d2 = hideSeparatorsIfNeeded (map commandWithType (actionArea primaryCommandsLocation)) d1;
          d3 = fold (\<lambda>c d. d(cmd_id c := ''none'')) (overflowArea primaryCommandsLocation) d2;
          d4 = fold (\<lambda>c d. d(cmd_id c := ''none'')) (secondaryCommands s) d3;
          overflowCommands = overflowArea primaryCommandsLocation;
          showOverflowButton = (overflowCommands \<noteq> [] \<or> secondaryCommands s \<noteq> []);
          shownSecondary = filter (\<lambda>c. \<not> cmd_hidden c) (secondaryCommands s);
          hasToggleCommands = (\<exists>c \<in> set (overflowCommands @ shownSecondary). cmd_type c = Toggle);
          hasFlyoutCommands = (\<exists>c \<in> set (overflowCommands @ shownSecondary). cmd_type c = Flyout);
          projections = menuCommandProjections overflowCommands (secondaryCommands s)
      in s\<lparr>elementDisplay := d4,
           overflowButtonDisplay := (if showOverflowButton then [] else ''none''),
           overflowAreaChildren := projections,
           overflowAreaDisplay := hideSeparatorsIfNeeded (menuCommandsWithType projections) (\<lambda>_. []),
           hasToggleClass := hasToggleCommands,
           hasFlyoutClass := hasFlyoutCommands\<rparr>)"

text \<open>
  Reading a field of \<^verbatim>\<open>this._cachedMeasurements\<close> while it is still undefined throws.
\<close>

definition layoutCommands :: "Surface \<Rightarrow> error + bool \<times> Surface" where
  "layoutCommands s =
     (case cachedMeasurements s of
        None \<Rightarrow> Inl TypeError
      | Some m \<Rightarrow> Inr (True, layoutWith m s))"

text \<open>
  \<^verbatim>\<open>_processNewData\<close> puts the command elements into the action area again and always
  reports success; the order of the children is not part of this state.
\<close>

definition processNewData :: "Surface \<Rightarrow> bool \<times> Surface" where
  "processNewData s = (True, s)"

section \<open>Layout pipeline\<close>

definition newDataStage :: nat where
  "newDataStage = 3"

definition measuringStage :: nat where
  "measuringStage = 2"

definition layoutStage :: nat where
  "layoutStage = 1"

definition idle :: nat where
  "idle = 0"

definition dataDirty :: "Surface \<Rightarrow> Surface" where
  "dataDirty s = s\<lparr>nextLayoutStage := max newDataStage (nextLayoutStage s)\<rparr>"

definition meaurementsDirty :: "Surface \<Rightarrow> Surface" where
  "meaurementsDirty s = s\<lparr>nextLayoutStage := max measuringStage (nextLayoutStage s)\<rparr>"

definition layoutDirty :: "Surface \<Rightarrow> Surface" where
  "layoutDirty s = s\<lparr>nextLayoutStage := max layoutStage (nextLayoutStage s)\<rparr>"

text \<open>
  The callers of the three invalidations. \<^verbatim>\<open>this._machine.updateDom()\<close> asks the state
  machine, which is outside this file, to render again; here the call is counted.
  \<^verbatim>\<open>_dataUpdated\<close> splits the data by section, anything but \<^verbatim>\<open>"secondary"\<close> being primary.
\<close>

definition machine_updateDom :: "Surface \<Rightarrow> Surface" where
  "machine_updateDom s = s\<lparr>updateDomCalls := Suc (updateDomCalls s)\<rparr>"

definition dataUpdated :: "ICommand list \<Rightarrow> Surface \<Rightarrow> Surface" where
  "dataUpdated data s =
     machine_updateDom (dataDirty
       (s\<lparr>primaryCommands := filter (\<lambda>c. cmd_section c \<noteq> ''secondary'') data,
          secondaryCommands := filter (\<lambda>c. cmd_section c = ''secondary'') data\<rparr>))"

definition forceLayout :: "Surface \<Rightarrow> Surface" where
  "forceLayout s = machine_updateDom (meaurementsDirty s)"

definition resizeHandler :: "Dom \<Rightarrow> Surface \<Rightarrow> Surface" where
  "resizeHandler doc s =
     (if rootOffsetWidth doc \<noteq> 0 then
        (let currentActionAreaWidth = actionAreaContentWidth doc
         in case cachedMeasurements s of
              None \<Rightarrow> s
            | Some m \<Rightarrow>
                if actionAreaContentBoxWidth m \<noteq> currentActionAreaWidth
                then machine_updateDom (layoutDirty
                       (s\<lparr>cachedMeasurements :=
                            Some (m\<lparr>actionAreaContentBoxWidth := currentActionAreaWidth\<rparr>)\<rparr>))
                else s)
      else s)"

text \<open>
  The \<^verbatim>\<open>while\<close> loop of \<^verbatim>\<open>_updateDomImpl_updateCommands\<close>, for any three stage actions. An
  action returns \<^verbatim>\<open>okToProceed\<close> and the state it leaves, or throws. The last argument is a
  record of the calls made so far: the stage of each action called and the flag it
  returned, in call order. It is not program state. A stage number outside the pipeline
  matches no \<^verbatim>\<open>case\<close>, so \<^verbatim>\<open>okToProceed\<close> stays false and the loop is left.
\<close>

function drainStages ::
  "('s \<Rightarrow> 'x + bool \<times> 's) \<Rightarrow> ('s \<Rightarrow> 'x + bool \<times> 's) \<Rightarrow> ('s \<Rightarrow> 'x + bool \<times> 's)
     \<Rightarrow> nat \<Rightarrow> 's \<Rightarrow> (nat \<times> bool) list \<Rightarrow> 'x + nat \<times> 's \<times> (nat \<times> bool) list"
where
  "drainStages pnd meas lay nextStage s calls =
     (if nextStage = idle then Inr (nextStage, s, calls)
      else if nextStage = newDataStage then
        (case pnd s of
           Inl x \<Rightarrow> Inl x
         | Inr (okToProceed, s') \<Rightarrow>
             if okToProceed
             then drainStages pnd meas lay measuringStage s' (calls @ [(nextStage, True)])
             else Inr (nextStage, s', calls @ [(nextStage, False)]))
      else if nextStage = measuringStage then
        (case meas s of
           Inl x \<Rightarrow> Inl x
         | Inr (okToProceed, s') \<Rightarrow>
             if okToProceed
             then drainStages pnd meas lay layoutStage s' (calls @ [(nextStage, True)])
             else Inr (nextStage, s', calls @ [(nextStage, False)]))
      else if nextStage = layoutStage then
        (case lay s of
           Inl x \<Rightarrow> Inl x
         | Inr (okToProceed, s') \<Rightarrow>
             if okToProceed
             then drainStages pnd meas lay idle s' (calls @ [(nextStage, True)])
             else Inr (nextStage, s', calls @ [(nextStage, False)]))
      else Inr (nextStage, s, calls))"
  by pat_completeness auto
termination
  by (relation "measure (\<lambda>(pnd, meas, lay, nextStage, s, calls). nextStage)")
     (auto simp: newDataStage_def measuringStage_def layoutStage_def idle_def)

declare drainStages.simps [simp del]

definition updateDomImpl_updateCommands :: "Dom \<Rightarrow> Surface \<Rightarrow> error + Surface" where
  "updateDomImpl_updateCommands doc s =
     (case drainStages (\<lambda>s. Inr (processNewData s)) (\<lambda>s. Inr (measureSurface doc s)) layoutCommands
             (nextLayoutStage s) s [] of
        Inl x \<Rightarrow> Inl x
      | Inr (nextStage, s', calls) \<Rightarrow> Inr (s'\<lparr>nextLayoutStage := nextStage\<rparr>))"

text \<open>
  A history of the pipeline: the three invalidations and runs of the pipeline, each run with
  the document as it is at that time.
\<close>

datatype event = DataDirty | MeaurementsDirty | LayoutDirty | UpdateCommands Dom

fun applyEvent :: "event \<Rightarrow> Surface \<Rightarrow> error + Surface" where
  "applyEvent DataDirty s = Inr (dataDirty s)"
| "applyEvent MeaurementsDirty s = Inr (meaurementsDirty s)"
| "applyEvent LayoutDirty s = Inr (layoutDirty s)"
| "applyEvent (UpdateCommands doc) s = updateDomImpl_updateCommands doc s"

fun applyEvents :: "event list \<Rightarrow> Surface \<Rightarrow> error + Surface" where
  "applyEvents [] s = Inr s"
| "applyEvents (e # es) s =
     (case applyEvent e s of Inl x \<Rightarrow> Inl x | Inr s' \<Rightarrow> applyEvents es s')"

section \<open>Keyboard navigation\<close>

datatype key = LeftArrow | UpArrow | RightArrow | DownArrow | Home | End | OtherKey

datatype focusTarget = FirstElementFocus | LastElementFocus

record KeyEvent =
  altKey :: bool
  targetIsInteractive :: bool
  keyCode :: key

record 'e IFocusableElementsInfo =
  elements :: "'e list"
  focusedIndex :: int

text \<open>
  \<^verbatim>\<open>_getFocusableElementsInfo\<close>. The children of the action area, followed by those of the
  overflow area unless its display is \<^verbatim>\<open>none\<close>, are scanned in order. \<open>isElementFocusable\<close> is
  \<^verbatim>\<open>_isElementFocusable\<close> and \<open>containsActive\<close> is \<^verbatim>\<open>element.contains(document.activeElement)\<close>.
\<close>

fun getFocusableElementsInfo_loop ::
  "('e \<Rightarrow> bool) \<Rightarrow> ('e \<Rightarrow> bool) \<Rightarrow> 'e list \<Rightarrow> 'e IFocusableElementsInfo
     \<Rightarrow> 'e IFocusableElementsInfo"
where
  "getFocusableElementsInfo_loop isElementFocusable containsActive [] info = info"
| "getFocusableElementsInfo_loop isElementFocusable containsActive (el # rest) info =
     (if isElementFocusable el then
        (let pushed = info\<lparr>elements := elements info @ [el]\<rparr>;
             info' = (if containsActive el
                      then pushed\<lparr>focusedIndex := int (length (elements pushed)) - 1\<rparr>
                      else pushed)
         in getFocusableElementsInfo_loop isElementFocusable containsActive rest info')
      else getFocusableElementsInfo_loop isElementFocusable containsActive rest info)"

definition getFocusableElementsInfo ::
  "('e \<Rightarrow> bool) \<Rightarrow> ('e \<Rightarrow> bool) \<Rightarrow> 'e list \<Rightarrow> string \<Rightarrow> 'e list
     \<Rightarrow> 'e IFocusableElementsInfo"
where
  "getFocusableElementsInfo isElementFocusable containsActive actionChildren
       overflowDisplayStyle overflowChildren =
     (let elementsInReach =
            actionChildren
            @ (if overflowDisplayStyle \<noteq> ''none'' then overflowChildren else [])
      in getFocusableElementsInfo_loop isElementFocusable containsActive elementsInReach
           \<lparr>elements = [], focusedIndex = - 1\<rparr>)"

text \<open>
  \<^verbatim>\<open>_keyDownHandler\<close> up to the choice of \<^verbatim>\<open>targetCommand\<close>, given what
  \<^verbatim>\<open>_getFocusableElementsInfo\<close> returned: the result is the index into the
  focusable elements and which of \<^verbatim>\<open>_getFirstElementFocus\<close> and \<^verbatim>\<open>_getLastElementFocus\<close> is
  applied to that element. An index outside the array reads \<^verbatim>\<open>undefined\<close>, and then nothing
  is focused. The dividend of \<^verbatim>\<open>%\<close> is never negative here, so \<^verbatim>\<open>%\<close> is \<open>mod\<close>.
\<close>

definition keyDownHandler ::
  "bool \<Rightarrow> KeyEvent \<Rightarrow> 'e IFocusableElementsInfo \<Rightarrow> (int \<times> focusTarget) option"
where
  "keyDownHandler rtl ev focusableElementsInfo =
     (if altKey ev then None
      else if targetIsInteractive ev then None
      else
        let len = int (length (elements focusableElementsInfo));
            inRange = (\<lambda>(index, t). if 0 \<le> index \<and> index < len then Some (index, t) else None)
        in if len = 0 then None
           else if keyCode ev = (if rtl then RightArrow else LeftArrow) \<or> keyCode ev = UpArrow
           then inRange ((max 0 (focusedIndex focusableElementsInfo - 1)) mod len, LastElementFocus)
           else if keyCode ev = (if rtl then LeftArrow else RightArrow) \<or> keyCode ev = DownArrow
           then inRange (min (focusedIndex focusableElementsInfo + 1) (len - 1), FirstElementFocus)
           else if keyCode ev = Home then inRange (0, FirstElementFocus)
           else if keyCode ev = End then inRange (len - 1, LastElementFocus)
           else None)"

section \<open>The closedDisplayMode property\<close>

text \<open>
  \<^verbatim>\<open>ClosedDisplayMode\<close> is an object literal with four own properties. \<^verbatim>\<open>ClosedDisplayMode[value]\<close>
  is an ordinary property read, so a name that is not an own property is looked up in
  \<^verbatim>\<open>Object.prototype\<close>, whose properties (the standard ones and the legacy accessors
  \<^verbatim>\<open>__proto__\<close>, \<^verbatim>\<open>__defineGetter__\<close> and the like) are functions or objects and therefore
  truthy.
\<close>

definition ClosedDisplayMode :: "(string \<times> string) list" where
  "ClosedDisplayMode =
     [(''none'', ''none''), (''minimal'', ''minimal''), (''compact'', ''compact''), (''full'', ''full'')]"

definition ObjectPrototype :: "string list" where
  "ObjectPrototype =
     [''constructor'', ''toString'', ''toLocaleString'', ''valueOf'', ''hasOwnProperty'',
      ''isPrototypeOf'', ''propertyIsEnumerable'', ''__proto__'', ''__defineGetter__'',
      ''__defineSetter__'', ''__lookupGetter__'', ''__lookupSetter__'']"

definition ClosedDisplayMode_truthy :: "string \<Rightarrow> bool" where
  "ClosedDisplayMode_truthy v =
     (case map_of ClosedDisplayMode v of
        Some str \<Rightarrow> str \<noteq> []
      | None \<Rightarrow> v \<in> set ObjectPrototype)"

definition set_closedDisplayMode :: "string \<Rightarrow> Surface \<Rightarrow> Surface" where
  "set_closedDisplayMode v s =
     (let isChangingState = (v \<noteq> closedDisplayMode s)
      in if ClosedDisplayMode_truthy v \<and> isChangingState
         then machine_updateDom (s\<lparr>closedDisplayMode := v\<rparr>)
         else s)"

section \<open>Reference definitions\<close>

text \<open>
  The definitions of this section are not translations of the source. They state what the
  specification says in its own terms, for comparison with the functions above, or name
  concrete inputs.
\<close>

definition numUnprioritized :: "ICommand list \<Rightarrow> nat" where
  "numUnprioritized cs = length (filter (\<lambda>c. cmd_priority c = None) cs)"

text \<open>
  The command infos read front to back: a command without a priority gets \<open>start\<close> minus the
  number of commands without a priority that are declared after it.
\<close>

fun spec_commandsInfo ::
  "Measurements \<Rightarrow> nat display \<Rightarrow> int \<Rightarrow> ICommand list \<Rightarrow> ICommandInfo list"
where
  "spec_commandsInfo m d start [] = []"
| "spec_commandsInfo m d start (c # cs) =
     \<lparr>command = c,
      width = (if d (cmd_id c) = ''none'' then Some 0 else getCommandWidth m c),
      priority = (case cmd_priority c of
                    Some p \<Rightarrow> p
                  | None \<Rightarrow> start - int (numUnprioritized cs))\<rparr>
     # spec_commandsInfo m d start cs"

text \<open>The width of a command info whose width has been measured.\<close>

definition widthOf :: "ICommandInfo \<Rightarrow> int" where
  "widthOf ci = (case width ci of Some w \<Rightarrow> w | None \<Rightarrow> 0)"

text \<open>
  The partition in the words of the specification. At position \<open>i\<close> of the sorted list the
  overflow button width is reserved unless \<open>i\<close> is the last position and there are no
  secondary commands; the remaining width there is the available width minus the widths
  of the commands up to \<open>i\<close> minus the reserve; the first position with a negative
  remaining width fixes the cutoff.
\<close>

definition spec_reserve :: "bool \<Rightarrow> int \<Rightarrow> nat \<Rightarrow> nat \<Rightarrow> int" where
  "spec_reserve hasSecondary obw len i = (if Suc i = len \<and> \<not> hasSecondary then 0 else obw)"

definition spec_remaining :: "int \<Rightarrow> bool \<Rightarrow> int \<Rightarrow> ICommandInfo list \<Rightarrow> nat \<Rightarrow> int" where
  "spec_remaining avail hasSecondary obw sortedInfos i =
     avail - sum_list (map widthOf (take (Suc i) sortedInfos))
       - spec_reserve hasSecondary obw (length sortedInfos) i"

definition spec_cutoff :: "int \<Rightarrow> bool \<Rightarrow> int \<Rightarrow> ICommandInfo list \<Rightarrow> maxprio" where
  "spec_cutoff avail hasSecondary obw sortedInfos =
     (case List.find (\<lambda>i. spec_remaining avail hasSecondary obw sortedInfos i < 0)
             [0..<length sortedInfos] of
        None \<Rightarrow> MAX_VALUE
      | Some i \<Rightarrow> Prio (priority (sortedInfos ! i) - 1))"

text \<open>The priorities whose predecessor is a double: there \<^verbatim>\<open>priority - 1\<close> is exact.\<close>

definition safePriority :: "int \<Rightarrow> bool" where
  "safePriority p = (- 9007199254740992 < p \<and> p \<le> 9007199254740992)"

text \<open>The order of cutoffs, and of available widths that may be \<^verbatim>\<open>NaN\<close>.\<close>

fun maxprio_le :: "maxprio \<Rightarrow> maxprio \<Rightarrow> bool" where
  "maxprio_le _ MAX_VALUE = True"
| "maxprio_le MAX_VALUE (Prio q) = False"
| "maxprio_le (Prio p) (Prio q) = (p \<le> q)"

fun avail_le :: "int option \<Rightarrow> int option \<Rightarrow> bool" where
  "avail_le (Some x) (Some y) = (x \<le> y)"
| "avail_le None None = True"
| "avail_le _ _ = False"

definition isSeparator :: "'e ICommandWithType \<Rightarrow> bool" where
  "isSeparator c = (etype c = Separator)"

definition isSeparatorMenuCommand :: "MenuCommand \<Rightarrow> bool" where
  "isSeparatorMenuCommand p = (mc_type p = Separator)"

text \<open>
  The width \<^verbatim>\<open>_measure\<close> keeps for a kind of command: that of the first command of the kind
  whose measured width is not 0, and 0 when there is none.
\<close>

definition firstNonZeroWidth :: "Dom \<Rightarrow> (ICommand \<Rightarrow> bool) \<Rightarrow> ICommand list \<Rightarrow> int" where
  "firstNonZeroWidth doc kind cs =
     (case List.find (\<lambda>c. kind c \<and> commandTotalWidth doc (cmd_id c) \<noteq> 0) cs of
        None \<Rightarrow> 0
      | Some c \<Rightarrow> commandTotalWidth doc (cmd_id c))"

definition isSeparatorCommand :: "ICommand \<Rightarrow> bool" where
  "isSeparatorCommand c = (cmd_type c = Separator)"

definition isStandardCommand :: "ICommand \<Rightarrow> bool" where
  "isStandardCommand c = (cmd_type c \<noteq> Content \<and> cmd_type c \<noteq> Separator)"

definition measuredContentWidths :: "Dom \<Rightarrow> ICommand list \<Rightarrow> (nat \<rightharpoonup> int)" where
  "measuredContentWidths doc cs =
     (\<lambda>k. if \<exists>c \<in> set cs. cmd_type c = Content \<and> cmd_id c = k
          then Some (commandTotalWidth doc k) else None)"

text \<open>When \<^verbatim>\<open>_measure\<close> can measure, and the snapshot a successful measurement stores.\<close>

definition canMeasure :: "Dom \<Rightarrow> bool" where
  "canMeasure doc = (rootInBody doc \<and> 0 < actionAreaOffsetWidth doc)"

definition freshMeasurements :: "Dom \<Rightarrow> Surface \<Rightarrow> Measurements" where
  "freshMeasurements doc s =
     \<lparr>overflowButtonWidth = overflowButtonTotalWidth doc,
      separatorWidth = firstNonZeroWidth doc isSeparatorCommand (primaryCommands s),
      standardCommandWidth = firstNonZeroWidth doc isStandardCommand (primaryCommands s),
      contentCommandWidths = measuredContentWidths doc (primaryCommands s),
      actionAreaContentBoxWidth = actionAreaContentWidth doc\<rparr>"

text \<open>
  The stage an invalidation asks for, and the greatest stage asked for since the pipeline
  last drained to idle, along a history that starts in state \<open>s\<close> with \<open>acc\<close> asked for so
  far.
\<close>

fun requestedStage :: "event \<Rightarrow> nat" where
  "requestedStage DataDirty = newDataStage"
| "requestedStage MeaurementsDirty = measuringStage"
| "requestedStage LayoutDirty = layoutStage"
| "requestedStage (UpdateCommands doc) = idle"

fun isRequest :: "event \<Rightarrow> bool" where
  "isRequest (UpdateCommands doc) = False"
| "isRequest _ = True"

fun spec_maxRequested :: "event list \<Rightarrow> Surface \<Rightarrow> nat \<Rightarrow> nat" where
  "spec_maxRequested [] s acc = acc"
| "spec_maxRequested (e # es) s acc =
     (case applyEvent e s of
        Inl x \<Rightarrow> acc
      | Inr s' \<Rightarrow>
          if isRequest e then spec_maxRequested es s' (max (requestedStage e) acc)
          else spec_maxRequested es s' (if nextLayoutStage s' = idle then idle else acc))"

subsection \<open>Concrete inputs\<close>

definition initialSurface :: Surface where
  "initialSurface =
     \<lparr>primaryCommands = [], secondaryCommands = [], cachedMeasurements = None,
      nextLayoutStage = idle, closedDisplayMode = ''compact'', elementDisplay = (\<lambda>_. []),
      overflowButtonDisplay = [], overflowAreaChildren = [], overflowAreaDisplay = (\<lambda>_. []),
      hasToggleClass = False, hasFlyoutClass = False, updateDomCalls = 0\<rparr>"

definition exampleMeasurements :: Measurements where
  "exampleMeasurements =
     \<lparr>overflowButtonWidth = 32, separatorWidth = 34, standardCommandWidth = 68,
      contentCommandWidths = [1 \<mapsto> 10], actionAreaContentBoxWidth = 78\<rparr>"

definition button0 :: ICommand where
  "button0 = \<lparr>cmd_id = 0, cmd_type = Button, cmd_section = ''primary'', cmd_priority = None,
               cmd_hidden = False\<rparr>"

definition content1 :: ICommand where
  "content1 = \<lparr>cmd_id = 1, cmd_type = Content, cmd_section = ''primary'', cmd_priority = None,
                cmd_hidden = False\<rparr>"

definition button2 :: ICommand where
  "button2 = \<lparr>cmd_id = 2, cmd_type = Button, cmd_section = ''primary'', cmd_priority = Some 5,
               cmd_hidden = False\<rparr>"

definition separator3 :: ICommand where
  "separator3 = \<lparr>cmd_id = 3, cmd_type = Separator, cmd_section = ''primary'', cmd_priority = None,
                  cmd_hidden = False\<rparr>"

definition separator4 :: ICommand where
  "separator4 = \<lparr>cmd_id = 4, cmd_type = Separator, cmd_section = ''primary'', cmd_priority = None,
                  cmd_hidden = False\<rparr>"

definition toggle5 :: ICommand where
  "toggle5 = \<lparr>cmd_id = 5, cmd_type = Toggle, cmd_section = ''secondary'', cmd_priority = None,
               cmd_hidden = False\<rparr>"

definition hugeButton7 :: ICommand where
  "hugeButton7 = \<lparr>cmd_id = 7, cmd_type = Button, cmd_section = ''primary'',
                   cmd_priority = Some (- 9007199254740992), cmd_hidden = False\<rparr>"

definition hiddenToggle6 :: ICommand where
  "hiddenToggle6 = \<lparr>cmd_id = 6, cmd_type = Toggle, cmd_section = ''secondary'',
                     cmd_priority = None, cmd_hidden = True\<rparr>"

definition detachedDom :: Dom where
  "detachedDom =
     \<lparr>rootInBody = False, rootOffsetWidth = 0, actionAreaOffsetWidth = 0,
      overflowButtonTotalWidth = 32, actionAreaContentWidth = 0, commandTotalWidth = (\<lambda>_. 68)\<rparr>"

definition attachedDom :: Dom where
  "attachedDom =
     \<lparr>rootInBody = True, rootOffsetWidth = 320, actionAreaOffsetWidth = 320,
      overflowButtonTotalWidth = 32, actionAreaContentWidth = 320,
      commandTotalWidth = (\<lambda>k. if k = 3 then 0 else if k = 4 then 34 else 68)\<rparr>"

section \<open>Effective priorities\<close>

lemma numUnprioritized_snoc:
  "numUnprioritized (cs @ [c]) = numUnprioritized cs + (if cmd_priority c = None then 1 else 0)"
  by (simp add: numUnprioritized_def)

lemma numUnprioritized_append:
  "numUnprioritized (xs @ ys) = numUnprioritized xs + numUnprioritized ys"
  by (simp add: numUnprioritized_def)

lemma spec_commandsInfo_snoc:
  "spec_commandsInfo m d start (cs @ [c]) =
     spec_commandsInfo m d (start - (if cmd_priority c = None then 1 else 0)) cs
     @ [\<lparr>command = c,
         width = (if d (cmd_id c) = ''none'' then Some 0 else getCommandWidth m c),
         priority = (case cmd_priority c of Some p \<Rightarrow> p | None \<Rightarrow> start)\<rparr>]"
  by (induction cs) (auto simp: numUnprioritized_snoc numUnprioritized_def split: option.splits)

lemma getCommandsInfo_loop_eq:
  "getCommandsInfo_loop m d rs cur acc = spec_commandsInfo m d cur (rev rs) @ acc"
proof (induction rs arbitrary: cur acc)
  case Nil
  show ?case by simp
next
  case (Cons c rest)
  show ?case
    by (cases "cmd_priority c") (simp_all add: Cons.IH spec_commandsInfo_snoc Let_def)
qed

lemma getCommandsInfo_eq: "getCommandsInfo m d cs = spec_commandsInfo m d 0 cs"
  by (simp add: getCommandsInfo_def getCommandsInfo_loop_eq)

lemma spec_commandsInfo_length [simp]: "length (spec_commandsInfo m d s cs) = length cs"
  by (induction cs) simp_all

lemma map_command_spec [simp]: "map command (spec_commandsInfo m d s cs) = cs"
  by (induction cs) simp_all

lemma spec_commandsInfo_nth:
  "i < length cs \<Longrightarrow> spec_commandsInfo m d s cs ! i =
     \<lparr>command = cs ! i,
      width = (if d (cmd_id (cs ! i)) = ''none'' then Some 0 else getCommandWidth m (cs ! i)),
      priority = (case cmd_priority (cs ! i) of
                    Some p \<Rightarrow> p
                  | None \<Rightarrow> s - int (numUnprioritized (drop (Suc i) cs)))\<rparr>"
proof (induction cs arbitrary: i)
  case Nil
  then show ?case by simp
next
  case (Cons c cs)
  then show ?case by (cases i) (auto split: option.splits)
qed

lemma length_getCommandsInfo [simp]: "length (getCommandsInfo m d primary) = length primary"
  by (simp add: getCommandsInfo_eq)

lemma command_getCommandsInfo_nth:
  "i < length primary \<Longrightarrow> command (getCommandsInfo m d primary ! i) = primary ! i"
  by (simp add: getCommandsInfo_eq spec_commandsInfo_nth)

lemma getCommandsInfo_nth_priority:
  "k < length primary \<Longrightarrow>
   priority (getCommandsInfo m d primary ! k) =
     (case cmd_priority (primary ! k) of
        Some p \<Rightarrow> p
      | None \<Rightarrow> - int (numUnprioritized (drop (Suc k) primary)))"
  by (auto simp: getCommandsInfo_eq spec_commandsInfo_nth split: option.splits)

lemma numUnprioritized_drop_less:
  assumes "i < j" and "j < length cs" and "cmd_priority (cs ! j) = None"
  shows "numUnprioritized (drop (Suc j) cs) < numUnprioritized (drop (Suc i) cs)"
proof -
  have "drop (Suc i) cs = take (j - Suc i) (drop (Suc i) cs) @ drop (j - Suc i) (drop (Suc i) cs)"
    by (rule append_take_drop_id [symmetric])
  also have "drop (j - Suc i) (drop (Suc i) cs) = drop j cs"
    using assms(1) by simp
  also have "drop j cs = cs ! j # drop (Suc j) cs"
    using assms(2) by (simp add: Cons_nth_drop_Suc)
  finally have "numUnprioritized (drop (Suc i) cs) =
      numUnprioritized (take (j - Suc i) (drop (Suc i) cs) @ cs ! j # drop (Suc j) cs)"
    by (rule arg_cong)
  also have "\<dots> = numUnprioritized (take (j - Suc i) (drop (Suc i) cs))
      + (1 + numUnprioritized (drop (Suc j) cs))"
    using assms(3) by (simp add: numUnprioritized_append) (simp add: numUnprioritized_def)
  finally show ?thesis by simp
qed

text \<open>
  Claim C4, as the code has it. \<^verbatim>\<open>_getCommandsInfo\<close> keeps the commands in declaration order.
  A command with an explicit priority keeps it. A command without one gets minus the number
  of commands without a priority declared after it: walking back to front these are 0, -1,
  -2 and so on, so the first value handed out is 0 and not a negative number. Of two
  commands without a priority the one declared later has the strictly greater priority.
\<close>

theorem getCommandsInfo_priorities:
  assumes "i < length primary"
  shows "length (getCommandsInfo m d primary) = length primary
       \<and> command (getCommandsInfo m d primary ! i) = primary ! i
       \<and> priority (getCommandsInfo m d primary ! i) =
           (case cmd_priority (primary ! i) of
              Some p \<Rightarrow> p
            | None \<Rightarrow> - int (numUnprioritized (drop (Suc i) primary)))
       \<and> (\<forall>j. i < j \<and> j < length primary
               \<and> cmd_priority (primary ! i) = None \<and> cmd_priority (primary ! j) = None
             \<longrightarrow> priority (getCommandsInfo m d primary ! i)
                 < priority (getCommandsInfo m d primary ! j))"
proof -
  note prio = getCommandsInfo_nth_priority
  have "priority (getCommandsInfo m d primary ! i) < priority (getCommandsInfo m d primary ! j)"
    if "i < j" "j < length primary" "cmd_priority (primary ! i) = None"
      "cmd_priority (primary ! j) = None" for j
    using that numUnprioritized_drop_less [OF that(1,2,4)] by (simp add: prio assms)
  then show ?thesis
    using assms by (simp add: prio command_getCommandsInfo_nth)
qed

theorem getCommandsInfo_priorities_witness:
  "priority (getCommandsInfo exampleMeasurements (\<lambda>_. []) [button0, button2, content1] ! 0) = - 1
   \<and> priority (getCommandsInfo exampleMeasurements (\<lambda>_. []) [button0, button2, content1] ! 1) = 5
   \<and> priority (getCommandsInfo exampleMeasurements (\<lambda>_. []) [button0, button2, content1] ! 2) = 0"
  using getCommandsInfo_priorities [of 0 "[button0, button2, content1]" exampleMeasurements "\<lambda>_. []"]
    getCommandsInfo_priorities [of 1 "[button0, button2, content1]" exampleMeasurements "\<lambda>_. []"]
    getCommandsInfo_priorities [of 2 "[button0, button2, content1]" exampleMeasurements "\<lambda>_. []"]
  by (simp add: numUnprioritized_def button0_def button2_def content1_def)

text \<open>
  Claim C4 as stated fails: the only command of this list has no explicit priority, and the
  priority it is given is 0, which is not negative.
\<close>

theorem getCommandsInfo_zero_priority:
  "cmd_priority button0 = None
   \<and> \<not> priority (getCommandsInfo exampleMeasurements (\<lambda>_. []) [button0] ! 0) < 0"
  by (simp add: getCommandsInfo_def button0_def)

section \<open>The partition and its cutoff\<close>

lemma nearestEven_step: "nearestEven x \<le> nearestEven (x + 1)"
  unfolding nearestEven_def by presburger

lemma nearestEven_lower: "x - 1 \<le> nearestEven x"
  by (simp add: nearestEven_def)

lemma nearestEven_upper: "nearestEven x \<le> x + 1"
  by (simp add: nearestEven_def)

lemma nearestEven_bottom: "nearestEven (- 18014398509481984) = - 18014398509481984"
  by (simp add: nearestEven_def)

lemma jsMinusOne_upper: "jsMinusOne p \<le> p"
  using nearestEven_upper [of "p - 1"] by (simp add: jsMinusOne_def)

lemma jsMinusOne_lower: "p - 2 \<le> jsMinusOne p"
  using nearestEven_lower [of "p - 1"] by (simp add: jsMinusOne_def)

lemma jsMinusOne_step: "jsMinusOne p \<le> jsMinusOne (p + 1)"
proof -
  have a: "nearestEven (p - 1) \<le> nearestEven p"
    using nearestEven_step [of "p - 1"] by simp
  have b: "p - 1 \<le> nearestEven p" by (rule nearestEven_lower)
  have c: "nearestEven (p - 1) \<le> p" using nearestEven_upper [of "p - 1"] by simp
  have e: "nearestEven (- 9007199254740993) \<le> - 9007199254740992"
    by (simp add: nearestEven_def)
  show ?thesis
    unfolding jsMinusOne_def using a b c e by (auto simp: nearestEven_bottom split: if_splits)
qed

lemma jsMinusOne_mono: "p \<le> q \<Longrightarrow> jsMinusOne p \<le> jsMinusOne q"
proof -
  assume pq: "p \<le> q"
  consider "q = p" | "q = p + 1" | "p + 2 \<le> q" using pq by linarith
  then show ?thesis
  proof cases
    case 1
    then show ?thesis by simp
  next
    case 2
    then show ?thesis using jsMinusOne_step [of p] by simp
  next
    case 3
    then show ?thesis using jsMinusOne_upper [of p] jsMinusOne_lower [of q] by linarith
  qed
qed

lemma jsMinusOne_safe: "safePriority p \<Longrightarrow> jsMinusOne p = p - 1"
  by (simp add: jsMinusOne_def safePriority_def)

lemma find_map_comp: "List.find P (map f xs) = map_option f (List.find (P \<circ> f) xs)"
  by (induction xs) simp_all

lemma spec_remaining_Suc:
  "spec_remaining a hs obw (ci # rest) (Suc i) = spec_remaining (a - widthOf ci) hs obw rest i"
  by (simp add: spec_remaining_def spec_reserve_def)

lemma spec_remaining_0:
  "spec_remaining a hs obw (ci # rest) 0 = a - widthOf ci - (if hs \<or> rest \<noteq> [] then obw else 0)"
  by (auto simp: spec_remaining_def spec_reserve_def)

lemma spec_cutoff_Cons:
  "spec_cutoff a hs obw (ci # rest) =
     (if a - widthOf ci - (if hs \<or> rest \<noteq> [] then obw else 0) < 0 then Prio (priority ci - 1)
      else spec_cutoff (a - widthOf ci) hs obw rest)"
proof -
  have upt: "[0..<length (ci # rest)] = 0 # map Suc [0..<length rest]"
    by (simp add: upt_conv_Cons map_Suc_upt del: upt_Suc)
  show ?thesis
    unfolding spec_cutoff_def upt
    by (simp add: find_map_comp comp_def spec_remaining_Suc spec_remaining_0 option.case_eq_if
        option.map_sel del: upt_Suc)
qed

lemma findMaxPriority_spec:
  "list_all (\<lambda>ci. width ci \<noteq> None \<and> safePriority (priority ci)) xs \<Longrightarrow>
   findMaxPriority hs obw xs (Some a) = spec_cutoff a hs obw xs"
proof (induction xs arbitrary: a)
  case Nil
  show ?case by (simp add: spec_cutoff_def)
next
  case (Cons ci rest)
  from Cons.prems obtain w where w: "width ci = Some w" by auto
  from Cons.prems have safe: "jsMinusOne (priority ci) = priority ci - 1"
    by (simp add: jsMinusOne_safe)
  from Cons.prems
  have rest: "list_all (\<lambda>ci. width ci \<noteq> None \<and> safePriority (priority ci)) rest" by simp
  show ?case
    using Cons.IH [OF rest, of "a - w"] w safe
    by (simp add: spec_cutoff_Cons widthOf_def Let_def)
qed

lemma map_filter_nth:
  "map f (filter P xs) = map (\<lambda>i. f (xs ! i)) (filter (\<lambda>i. P (xs ! i)) [0..<length xs])"
proof (induction xs rule: rev_induct)
  case Nil
  show ?case by simp
next
  case (snoc x xs)
  have "filter (\<lambda>i. P ((xs @ [x]) ! i)) [0..<length xs] = filter (\<lambda>i. P (xs ! i)) [0..<length xs]"
    by (rule filter_cong) (simp_all add: nth_append)
  moreover have "map (\<lambda>i. f ((xs @ [x]) ! i)) (filter (\<lambda>i. P (xs ! i)) [0..<length xs])
      = map (\<lambda>i. f (xs ! i)) (filter (\<lambda>i. P (xs ! i)) [0..<length xs])"
    by (rule map_cong) (simp_all add: nth_append)
  ultimately show ?case
    using snoc.IH by simp
qed

lemma map_command_filter_getCommandsInfo:
  "map command (filter P (getCommandsInfo m d primary)) =
     map ((!) primary) (filter (\<lambda>i. P (getCommandsInfo m d primary ! i)) [0..<length primary])"
proof -
  have "map command (filter P (getCommandsInfo m d primary)) =
      map (\<lambda>i. command (getCommandsInfo m d primary ! i))
        (filter (\<lambda>i. P (getCommandsInfo m d primary ! i)) [0..<length primary])"
    using map_filter_nth [of command P "getCommandsInfo m d primary"] by simp
  also have "\<dots> = map ((!) primary)
      (filter (\<lambda>i. P (getCommandsInfo m d primary ! i)) [0..<length primary])"
    by (rule map_cong) (simp_all add: command_getCommandsInfo_nth)
  finally show ?thesis .
qed

lemma example_location:
  "getPrimaryCommandsLocation (exampleMeasurements\<lparr>actionAreaContentBoxWidth := 110\<rparr>) (\<lambda>_. [])
     [button0, button2, content1] []
   = \<lparr>actionArea = [button0, content1], overflowArea = [button2]\<rparr>"
  by (simp add: getPrimaryCommandsLocation_def getCommandsInfo_def getCommandWidth_def
      sortedCommandsInfo_def exampleMeasurements_def button0_def button2_def content1_def Let_def
      jsMinusOne_def)

text \<open>
  Claim C1 fails at a priority where \<^verbatim>\<open>priority - 1\<close> is not exact. A single primary
  command of priority \<open>-2\<^sup>5\<^sup>3\<close> and width 68, no secondary command, 10 pixels available:
  the remaining width is negative at that command, and the cutoff of the claim is the
  command's priority minus 1, which the command's priority exceeds, so the claim sends the
  command to the overflow area. The code computes \<open>-2\<^sup>5\<^sup>3 - 1\<close> in double arithmetic, which
  is \<open>-2\<^sup>5\<^sup>3\<close> again, and keeps the command in the action area.
\<close>

theorem partition_keeps_command_at_huge_priority:
  "getPrimaryCommandsLocation (exampleMeasurements\<lparr>actionAreaContentBoxWidth := 10\<rparr>) (\<lambda>_. [])
     [hugeButton7] []
   = \<lparr>actionArea = [hugeButton7], overflowArea = []\<rparr>
   \<and> getCommandsInfo (exampleMeasurements\<lparr>actionAreaContentBoxWidth := 10\<rparr>) (\<lambda>_. [])
       [hugeButton7]
     = [\<lparr>command = hugeButton7, width = Some 68, priority = - 9007199254740992\<rparr>]
   \<and> spec_cutoff 10 False 32
       [\<lparr>command = hugeButton7, width = Some 68, priority = - 9007199254740992\<rparr>]
     = Prio (- 9007199254740992 - 1)
   \<and> \<not> le_maxPriority (- 9007199254740992) (Prio (- 9007199254740992 - 1))"
  by (simp add: getPrimaryCommandsLocation_def getCommandsInfo_def getCommandWidth_def
      sortedCommandsInfo_def exampleMeasurements_def hugeButton7_def Let_def
      jsMinusOne_def nearestEven_def spec_cutoff_def spec_remaining_def spec_reserve_def
      widthOf_def)

text \<open>
  Claim C1, amended. Let every primary command have a measured width (a command whose
  element has display \<^verbatim>\<open>none\<close> counts 0) and a priority that is greater than \<open>-2\<^sup>5\<^sup>3\<close> and at
  most \<open>2\<^sup>5\<^sup>3\<close>, where \<^verbatim>\<open>priority - 1\<close> is exact in double arithmetic. The cutoff that
  \<^verbatim>\<open>_getPrimaryCommandsLocation\<close> computes is the one of the specification: walk the command infos sorted by ascending priority, subtract
  the widths, reserve the overflow button width unless the command is the last one and
  there are no secondary commands, and stop at the first command where the remaining width
  is negative; the cutoff is that command's priority minus 1. The action area receives
  exactly the commands whose priority is at most the cutoff and the overflow area all
  others, both in declaration order (they are picked by ascending index of the primary
  list). When no command triggers the cutoff every primary command stays in the action
  area.
\<close>

theorem getPrimaryCommandsLocation_partition:
  assumes "list_all (\<lambda>ci. width ci \<noteq> None \<and> safePriority (priority ci))
             (getCommandsInfo m d primary)"
  shows "let infos = getCommandsInfo m d primary;
             cutoff = spec_cutoff (actionAreaContentBoxWidth m) (secondary \<noteq> [])
                        (overflowButtonWidth m) (sort_key priority infos);
             loc = getPrimaryCommandsLocation m d primary secondary
         in actionArea loc =
              map ((!) primary)
                (filter (\<lambda>i. le_maxPriority (priority (infos ! i)) cutoff) [0..<length primary])
          \<and> overflowArea loc =
              map ((!) primary)
                (filter (\<lambda>i. \<not> le_maxPriority (priority (infos ! i)) cutoff) [0..<length primary])
          \<and> (cutoff = MAX_VALUE \<longrightarrow> actionArea loc = primary \<and> overflowArea loc = [])"
proof -
  let ?infos = "getCommandsInfo m d primary"
  have sorted_measured: "list_all (\<lambda>ci. width ci \<noteq> None \<and> safePriority (priority ci))
      (sort_key priority ?infos)"
    using assms by (simp add: list_all_iff)
  have cut: "findMaxPriority (secondary \<noteq> []) (overflowButtonWidth m) (sortedCommandsInfo ?infos)
      (Some (actionAreaContentBoxWidth m))
    = spec_cutoff (actionAreaContentBoxWidth m) (secondary \<noteq> []) (overflowButtonWidth m)
        (sort_key priority ?infos)"
    unfolding sortedCommandsInfo_def by (rule findMaxPriority_spec [OF sorted_measured])
  have all: "map command ?infos = primary"
    by (simp add: getCommandsInfo_eq)
  show ?thesis
    unfolding Let_def getPrimaryCommandsLocation_def cut
    by (simp add: map_command_filter_getCommandsInfo all)
qed

theorem getPrimaryCommandsLocation_partition_witness:
  "list_all (\<lambda>ci. width ci \<noteq> None \<and> safePriority (priority ci))
     (getCommandsInfo (exampleMeasurements\<lparr>actionAreaContentBoxWidth := 110\<rparr>) (\<lambda>_. [])
        [button0, button2, content1])
   \<and> getPrimaryCommandsLocation (exampleMeasurements\<lparr>actionAreaContentBoxWidth := 110\<rparr>) (\<lambda>_. [])
       [button0, button2, content1] []
     = \<lparr>actionArea = [button0, content1], overflowArea = [button2]\<rparr>"
proof -
  have h: "list_all (\<lambda>ci. width ci \<noteq> None \<and> safePriority (priority ci))
     (getCommandsInfo (exampleMeasurements\<lparr>actionAreaContentBoxWidth := 110\<rparr>) (\<lambda>_. [])
        [button0, button2, content1])"
    by (simp add: getCommandsInfo_def getCommandWidth_def exampleMeasurements_def button0_def
        button2_def content1_def safePriority_def)
  note t = getPrimaryCommandsLocation_partition [OF h, of "[]"]
  show ?thesis
    using h t by (simp add: example_location)
qed

section \<open>Monotonicity in the available width\<close>

lemma findMaxPriority_Prio_in:
  "findMaxPriority hs obw xs a = Prio q \<Longrightarrow> \<exists>ci \<in> set xs. q = jsMinusOne (priority ci)"
  by (induction xs arbitrary: a) (auto simp: Let_def split: if_splits)

lemma avail_le_jsSub: "avail_le a1 a2 \<Longrightarrow> avail_le (jsSub a1 w) (jsSub a2 w)"
  by (cases a1; cases a2; cases w) simp_all

lemma avail_le_negative: "avail_le a1 a2 \<Longrightarrow> jsNegative a2 \<Longrightarrow> jsNegative a1"
  by (cases a1; cases a2) simp_all

lemma findMaxPriority_mono:
  "sorted (map priority xs) \<Longrightarrow> avail_le a1 a2 \<Longrightarrow>
   maxprio_le (findMaxPriority hs obw xs a1) (findMaxPriority hs obw xs a2)"
proof (induction xs arbitrary: a1 a2)
  case Nil
  show ?case by simp
next
  case (Cons ci rest)
  let ?sp = "Some (if hs \<or> rest \<noteq> [] then obw else 0)"
  let ?b1 = "jsSub a1 (width ci)"
  let ?b2 = "jsSub a2 (width ci)"
  have b: "avail_le ?b1 ?b2" using Cons.prems(2) by (rule avail_le_jsSub)
  have bs: "avail_le (jsSub ?b1 ?sp) (jsSub ?b2 ?sp)" using b by (rule avail_le_jsSub)
  have srt: "sorted (map priority rest)" using Cons.prems(1) by simp
  show ?case
  proof (cases "jsNegative (jsSub ?b1 ?sp)")
    case neg1: True
    show ?thesis
    proof (cases "jsNegative (jsSub ?b2 ?sp)")
      case True
      with neg1 show ?thesis by (simp add: Let_def)
    next
      case neg2: False
      show ?thesis
      proof (cases "findMaxPriority hs obw rest ?b2")
        case MAX_VALUE
        with neg1 neg2 show ?thesis by (simp add: Let_def)
      next
        case (Prio q)
        then obtain cj where cj: "cj \<in> set rest" "q = jsMinusOne (priority cj)"
          using findMaxPriority_Prio_in by blast
        have "priority ci \<le> priority cj" using Cons.prems(1) cj(1) by auto
        then have "jsMinusOne (priority ci) \<le> jsMinusOne (priority cj)"
          by (rule jsMinusOne_mono)
        with neg1 neg2 Prio cj(2) show ?thesis by (simp add: Let_def)
      qed
    qed
  next
    case nn1: False
    have nn2: "\<not> jsNegative (jsSub ?b2 ?sp)" using nn1 avail_le_negative [OF bs] by blast
    show ?thesis using nn1 nn2 Cons.IH [OF srt b] by (simp add: Let_def)
  qed
qed

lemma le_maxPriority_mono: "maxprio_le c1 c2 \<Longrightarrow> le_maxPriority p c1 \<Longrightarrow> le_maxPriority p c2"
  by (cases c1; cases c2) simp_all

lemma length_filter_mono: "(\<And>x. P x \<Longrightarrow> Q x) \<Longrightarrow> length (filter P xs) \<le> length (filter Q xs)"
  by (induction xs) auto

lemma getCommandWidth_avail [simp]:
  "getCommandWidth (m\<lparr>actionAreaContentBoxWidth := w\<rparr>) c = getCommandWidth m c"
  by (simp add: getCommandWidth_def)

lemma spec_commandsInfo_avail [simp]:
  "spec_commandsInfo (m\<lparr>actionAreaContentBoxWidth := w\<rparr>) d s cs = spec_commandsInfo m d s cs"
  by (induction cs) simp_all

text \<open>
  Claim C3. For fixed commands, displays and measured widths, the number of primary
  commands that \<^verbatim>\<open>_getPrimaryCommandsLocation\<close> puts in the action area does not decrease
  when the available width (\<^verbatim>\<open>actionAreaContentBoxWidth\<close>) grows.
\<close>

theorem getPrimaryCommandsLocation_monotone:
  assumes "w1 \<le> w2"
  shows "length (actionArea (getPrimaryCommandsLocation
                   (m\<lparr>actionAreaContentBoxWidth := w1\<rparr>) d primary secondary))
       \<le> length (actionArea (getPrimaryCommandsLocation
                   (m\<lparr>actionAreaContentBoxWidth := w2\<rparr>) d primary secondary))"
proof -
  let ?infos = "getCommandsInfo m d primary"
  let ?cut = "\<lambda>w. findMaxPriority (secondary \<noteq> []) (overflowButtonWidth m)
                  (sortedCommandsInfo ?infos) (Some w)"
  have "sorted (map priority (sortedCommandsInfo ?infos))"
    by (simp add: sortedCommandsInfo_def)
  then have "maxprio_le (?cut w1) (?cut w2)"
    using assms by (intro findMaxPriority_mono) simp_all
  then have "length (filter (\<lambda>ci. le_maxPriority (priority ci) (?cut w1)) ?infos)
      \<le> length (filter (\<lambda>ci. le_maxPriority (priority ci) (?cut w2)) ?infos)"
    by (intro length_filter_mono) (rule le_maxPriority_mono)
  then show ?thesis
    by (simp add: getPrimaryCommandsLocation_def getCommandsInfo_eq Let_def)
qed

theorem getPrimaryCommandsLocation_monotone_witness:
  "(78::int) \<le> 178
   \<and> length (actionArea (getPrimaryCommandsLocation
         (exampleMeasurements\<lparr>actionAreaContentBoxWidth := 78\<rparr>) (\<lambda>_. [])
         [button0, button2, content1] [])) = 0
   \<and> length (actionArea (getPrimaryCommandsLocation
         (exampleMeasurements\<lparr>actionAreaContentBoxWidth := 178\<rparr>) (\<lambda>_. [])
         [button0, button2, content1] [])) = 3"
proof -
  have h: "(78::int) \<le> 178" by simp
  note t = getPrimaryCommandsLocation_monotone [OF h, of exampleMeasurements "\<lambda>_. []"
      "[button0, button2, content1]" "[]"]
  show ?thesis
    using h t
    by (simp add: getPrimaryCommandsLocation_def getCommandsInfo_def getCommandWidth_def
        sortedCommandsInfo_def exampleMeasurements_def button0_def button2_def content1_def Let_def
        jsMinusOne_def)
qed

section \<open>When every primary command fits\<close>

lemma sum_list_insort_key:
  "sum_list (map f (insort_key k x xs)) = (f x :: int) + sum_list (map f xs)"
  by (induction xs) simp_all

lemma sum_list_sort_key: "sum_list (map f (sort_key k xs)) = sum_list (map (f::'a \<Rightarrow> int) xs)"
  by (induction xs) (simp_all add: sum_list_insort_key)

lemma sum_list_nonneg_widths:
  "list_all (\<lambda>ci. width ci \<noteq> None \<and> 0 \<le> widthOf ci) xs \<Longrightarrow> 0 \<le> sum_list (map widthOf xs)"
  by (induction xs) simp_all

lemma list_all_butlast: "list_all P xs \<Longrightarrow> list_all P (butlast xs)"
  by (induction xs) simp_all

lemma butlast_nonempty_length: "butlast xs \<noteq> [] \<Longrightarrow> 2 \<le> length xs"
proof -
  assume "butlast xs \<noteq> []"
  then have "0 < length (butlast xs)" by blast
  then show ?thesis by simp
qed

lemma findMaxPriority_fits:
  assumes "list_all (\<lambda>ci. width ci \<noteq> None \<and> 0 \<le> widthOf ci) xs"
    and "sum_list (map widthOf xs) + (if hs then obw else 0) \<le> a"
    and "\<not> hs \<Longrightarrow> butlast xs \<noteq> [] \<Longrightarrow> sum_list (map widthOf (butlast xs)) + obw \<le> a"
  shows "findMaxPriority hs obw xs (Some a) = MAX_VALUE"
  using assms
proof (induction xs arbitrary: a)
  case Nil
  show ?case by simp
next
  case (Cons ci rest)
  from Cons.prems(1) obtain w where w: "width ci = Some w" "0 \<le> w" "widthOf ci = w"
    by (auto simp: widthOf_def)
  have rest: "list_all (\<lambda>ci. width ci \<noteq> None \<and> 0 \<le> widthOf ci) rest"
    using Cons.prems(1) by simp
  have nn: "0 \<le> sum_list (map widthOf rest)" "0 \<le> sum_list (map widthOf (butlast rest))"
    using rest by (simp_all add: sum_list_nonneg_widths list_all_butlast)
  have fits: "\<not> (a - w - (if hs \<or> rest \<noteq> [] then obw else 0) < 0)"
  proof (cases hs)
    case True
    then show ?thesis using Cons.prems(2) w nn by simp
  next
    case False
    show ?thesis
    proof (cases "rest = []")
      case True
      then show ?thesis using False Cons.prems(2) w by simp
    next
      case ne: False
      then have "sum_list (map widthOf (butlast (ci # rest))) + obw \<le> a"
        using Cons.prems(3) [OF False] by simp
      then show ?thesis using False ne w nn by simp
    qed
  qed
  have ih: "findMaxPriority hs obw rest (Some (a - w)) = MAX_VALUE"
  proof (rule Cons.IH [OF rest])
    show "sum_list (map widthOf rest) + (if hs then obw else 0) \<le> a - w"
      using Cons.prems(2) w by simp
  next
    assume "\<not> hs" "butlast rest \<noteq> []"
    then have "sum_list (map widthOf (butlast (ci # rest))) + obw \<le> a"
      using Cons.prems(3) by auto
    moreover have "rest \<noteq> []" using \<open>butlast rest \<noteq> []\<close> by auto
    ultimately show "sum_list (map widthOf (butlast rest)) + obw \<le> a - w"
      using w by simp
  qed
  show ?case using fits ih w by (simp add: Let_def)
qed

lemma getPrimaryCommandsLocation_MAX_VALUE:
  assumes "findMaxPriority (secondary \<noteq> []) (overflowButtonWidth m)
             (sortedCommandsInfo (getCommandsInfo m d primary)) (Some (actionAreaContentBoxWidth m))
           = MAX_VALUE"
  shows "getPrimaryCommandsLocation m d primary secondary = \<lparr>actionArea = primary, overflowArea = []\<rparr>"
  using assms by (simp add: getPrimaryCommandsLocation_def Let_def getCommandsInfo_eq)

lemma narrow_last_infos:
  "getCommandsInfo exampleMeasurements
     (resetPrimaryDisplay [button0, content1] (\<lambda>_. [])) [button0, content1]
   = [\<lparr>command = button0, width = Some 68, priority = - 1\<rparr>,
      \<lparr>command = content1, width = Some 10, priority = 0\<rparr>]"
  by (simp add: getCommandsInfo_def getCommandWidth_def resetPrimaryDisplay_def
      exampleMeasurements_def button0_def content1_def)

lemma narrow_last_location:
  "getPrimaryCommandsLocation exampleMeasurements
     (resetPrimaryDisplay [button0, content1] (\<lambda>_. [])) [button0, content1] []
   = \<lparr>actionArea = [], overflowArea = [button0, content1]\<rparr>"
  by (simp add: getPrimaryCommandsLocation_def narrow_last_infos sortedCommandsInfo_def Let_def)
     (simp add: exampleMeasurements_def jsMinusOne_def)

text \<open>
  Claim C2 as stated fails. A button of width 68 is followed by a content command of width
  10; there are no secondary commands, so no overflow button width is required, and the
  total width 78 is exactly the available width. The button is evaluated first, and since
  it is not the last command the overflow button width 32 is reserved: 78 - 68 - 32 is
  negative, both commands go to the overflow area and the overflow button is shown.
\<close>

theorem layout_narrow_last_command_overflows:
  "sum_list (map widthOf (getCommandsInfo exampleMeasurements
       (resetPrimaryDisplay [button0, content1] (\<lambda>_. [])) [button0, content1])) + 0
     \<le> actionAreaContentBoxWidth exampleMeasurements
   \<and> overflowArea (getPrimaryCommandsLocation exampleMeasurements
         (resetPrimaryDisplay [button0, content1] (\<lambda>_. [])) [button0, content1] [])
       = [button0, content1]
   \<and> overflowButtonDisplay
         (layoutWith exampleMeasurements (initialSurface\<lparr>primaryCommands := [button0, content1]\<rparr>))
       \<noteq> ''none''"
  by (simp add: narrow_last_infos narrow_last_location layoutWith_def initialSurface_def Let_def
      widthOf_def)
     (simp add: exampleMeasurements_def)

text \<open>
  Claim C2, amended. Let the primary commands have measured, non-negative widths (taken
  after \<^verbatim>\<open>_layoutCommands\<close> has reset their displays). If their total width plus the required
  overflow button width (zero without secondary commands) is at most the available width
  and, when there are no secondary commands and at least two primary commands, the total
  width of all primary commands but the one evaluated last plus the overflow button width
  is at most the available width too, then no primary command goes to the overflow area,
  the overflow area holds the projections of the shown secondary commands only, and the
  overflow button is hidden if and only if there are no secondary commands.
\<close>

theorem layout_everything_fits:
  assumes "infos = getCommandsInfo m (resetPrimaryDisplay (primaryCommands s) (elementDisplay s))
                     (primaryCommands s)"
    and "list_all (\<lambda>ci. width ci \<noteq> None \<and> 0 \<le> widthOf ci) infos"
    and "sum_list (map widthOf infos)
           + (if secondaryCommands s = [] then 0 else overflowButtonWidth m)
         \<le> actionAreaContentBoxWidth m"
    and "secondaryCommands s = [] \<and> 2 \<le> length infos \<longrightarrow>
         sum_list (map widthOf (butlast (sortedCommandsInfo infos))) + overflowButtonWidth m
         \<le> actionAreaContentBoxWidth m"
  shows "overflowArea (getPrimaryCommandsLocation m
             (resetPrimaryDisplay (primaryCommands s) (elementDisplay s))
             (primaryCommands s) (secondaryCommands s)) = []
       \<and> overflowAreaChildren (layoutWith m s) =
           map projectAsMenuCommand (filter (\<lambda>c. \<not> cmd_hidden c) (secondaryCommands s))
       \<and> (overflowButtonDisplay (layoutWith m s) = ''none'') = (secondaryCommands s = [])"
proof -
  let ?d1 = "resetPrimaryDisplay (primaryCommands s) (elementDisplay s)"
  let ?sorted = "sortedCommandsInfo infos"
  have m1: "list_all (\<lambda>ci. width ci \<noteq> None \<and> 0 \<le> widthOf ci) ?sorted"
    using assms(2) by (simp add: sortedCommandsInfo_def list_all_iff)
  have m2: "sum_list (map widthOf ?sorted)
      + (if secondaryCommands s \<noteq> [] then overflowButtonWidth m else 0) \<le> actionAreaContentBoxWidth m"
    using assms(3) by (auto simp: sortedCommandsInfo_def sum_list_sort_key)
  have m3: "sum_list (map widthOf (butlast ?sorted)) + overflowButtonWidth m \<le> actionAreaContentBoxWidth m"
    if "\<not> secondaryCommands s \<noteq> []" "butlast ?sorted \<noteq> []"
  proof -
    have "length ?sorted = length infos" by (simp add: sortedCommandsInfo_def)
    moreover have "2 \<le> length ?sorted" using that(2) by (rule butlast_nonempty_length)
    ultimately show ?thesis using assms(4) that(1) by simp
  qed
  have "findMaxPriority (secondaryCommands s \<noteq> []) (overflowButtonWidth m) ?sorted
      (Some (actionAreaContentBoxWidth m)) = MAX_VALUE"
    by (rule findMaxPriority_fits [OF m1 m2 m3])
  then have loc: "getPrimaryCommandsLocation m ?d1 (primaryCommands s) (secondaryCommands s)
      = \<lparr>actionArea = primaryCommands s, overflowArea = []\<rparr>"
    unfolding assms(1) by (rule getPrimaryCommandsLocation_MAX_VALUE)
  show ?thesis
    by (simp add: layoutWith_def Let_def loc menuCommandProjections_def)
qed

theorem layout_everything_fits_witness:
  "overflowArea (getPrimaryCommandsLocation (exampleMeasurements\<lparr>actionAreaContentBoxWidth := 110\<rparr>)
       (resetPrimaryDisplay [button0, content1] (\<lambda>_. [])) [button0, content1] []) = []
   \<and> overflowButtonDisplay
         (layoutWith (exampleMeasurements\<lparr>actionAreaContentBoxWidth := 110\<rparr>)
            (initialSurface\<lparr>primaryCommands := [button0, content1]\<rparr>)) = ''none''"
proof -
  let ?m = "exampleMeasurements\<lparr>actionAreaContentBoxWidth := 110\<rparr>"
  let ?s = "initialSurface\<lparr>primaryCommands := [button0, content1]\<rparr>"
  let ?infos = "[\<lparr>command = button0, width = Some 68, priority = - 1\<rparr>,
      \<lparr>command = content1, width = Some 10, priority = 0\<rparr>]"
  have i: "?infos = getCommandsInfo ?m (resetPrimaryDisplay (primaryCommands ?s) (elementDisplay ?s))
      (primaryCommands ?s)"
    by (simp add: getCommandsInfo_def getCommandWidth_def resetPrimaryDisplay_def
        exampleMeasurements_def button0_def content1_def initialSurface_def)
  have a: "list_all (\<lambda>ci. width ci \<noteq> None \<and> 0 \<le> widthOf ci) ?infos"
    by (simp add: widthOf_def)
  have b: "sum_list (map widthOf ?infos)
      + (if secondaryCommands ?s = [] then 0 else overflowButtonWidth ?m)
    \<le> actionAreaContentBoxWidth ?m"
    by (simp add: widthOf_def initialSurface_def exampleMeasurements_def)
  have c: "secondaryCommands ?s = [] \<and> 2 \<le> length ?infos \<longrightarrow>
      sum_list (map widthOf (butlast (sortedCommandsInfo ?infos))) + overflowButtonWidth ?m
      \<le> actionAreaContentBoxWidth ?m"
    by (simp add: widthOf_def sortedCommandsInfo_def exampleMeasurements_def)
  note t = layout_everything_fits [OF i a b c]
  show ?thesis
    using t by (simp add: initialSurface_def)
qed

section \<open>Separators\<close>

lemma hideLeadingOrConsecutive_keeps_none:
  "d e = ''none'' \<Longrightarrow> hideLeadingOrConsecutive prev cs d e = ''none''"
  by (induction cs arbitrary: prev d) simp_all

lemma hideLeadingOrConsecutive_other:
  "e \<notin> element ` set cs \<Longrightarrow> hideLeadingOrConsecutive prev cs d e = d e"
  by (induction cs arbitrary: prev d) simp_all

lemma hideLeadingOrConsecutive_append:
  "hideLeadingOrConsecutive prev (xs @ ys) d =
     hideLeadingOrConsecutive (if xs = [] then prev else etype (last xs)) ys
       (hideLeadingOrConsecutive prev xs d)"
  by (induction xs arbitrary: prev d) simp_all

lemma hideLeadingOrConsecutive_hides:
  assumes "etype c = Separator"
    and "(if pre = [] then prev else etype (last pre)) = Separator"
  shows "hideLeadingOrConsecutive prev (pre @ c # post) d (element c) = ''none''"
proof -
  have "hideLeadingOrConsecutive prev (pre @ c # post) d =
      hideLeadingOrConsecutive (etype c) post
        ((hideLeadingOrConsecutive prev pre d)(element c := ''none''))"
    using assms by (subst hideLeadingOrConsecutive_append) simp
  then show ?thesis
    by (simp add: hideLeadingOrConsecutive_keeps_none)
qed

lemma hideLeadingOrConsecutive_keeps:
  assumes "\<not> (etype c = Separator \<and> (if pre = [] then prev else etype (last pre)) = Separator)"
    and "element c \<notin> element ` set pre" and "element c \<notin> element ` set post"
  shows "hideLeadingOrConsecutive prev (pre @ c # post) d (element c) = d (element c)"
proof -
  have "hideLeadingOrConsecutive prev (pre @ c # post) d =
      hideLeadingOrConsecutive (etype c) post (hideLeadingOrConsecutive prev pre d)"
    using assms(1) by (subst hideLeadingOrConsecutive_append) auto
  then show ?thesis
    using assms(2,3) by (simp add: hideLeadingOrConsecutive_other)
qed

lemma hideTrailing_keeps_none: "d e = ''none'' \<Longrightarrow> hideTrailing cs d e = ''none''"
  by (induction cs arbitrary: d) simp_all

lemma hideTrailing_other:
  "e \<notin> element ` set (takeWhile isSeparator cs) \<Longrightarrow> hideTrailing cs d e = d e"
proof (induction cs arbitrary: d)
  case Nil
  show ?case by simp
next
  case (Cons a cs)
  show ?case
  proof (cases "isSeparator a")
    case True
    with Cons.prems have ne: "e \<noteq> element a"
      and rest: "e \<notin> element ` set (takeWhile isSeparator cs)"
      by auto
    have "hideTrailing cs (d(element a := ''none'')) e = (d(element a := ''none'')) e"
      by (rule Cons.IH [OF rest])
    with True ne show ?thesis by (simp add: isSeparator_def)
  next
    case False
    then show ?thesis by (simp add: isSeparator_def)
  qed
qed

lemma hideTrailing_reaches:
  "list_all isSeparator xs \<Longrightarrow> etype c = Separator \<Longrightarrow>
   hideTrailing (xs @ c # ys) d (element c) = ''none''"
  by (induction xs arbitrary: d) (simp_all add: isSeparator_def hideTrailing_keeps_none)

lemma hideSeparatorsIfNeeded_hidden:
  assumes "etype c = Separator"
    and "list_all isSeparator pre \<or> list_all isSeparator post \<or> (pre \<noteq> [] \<and> isSeparator (last pre))"
  shows "hideSeparatorsIfNeeded (pre @ c # post) d (element c) = ''none''"
proof (cases "list_all isSeparator post")
  case True
  then have "list_all isSeparator (rev post)" by (simp add: list_all_iff)
  then show ?thesis
    using assms(1) by (simp add: hideSeparatorsIfNeeded_def hideTrailing_reaches)
next
  case False
  with assms(2) have "pre = [] \<or> isSeparator (last pre)"
    by (cases pre rule: rev_cases) (auto simp: list_all_iff)
  then have "(if pre = [] then Separator else etype (last pre)) = Separator"
    by (auto simp: isSeparator_def)
  then have "hideLeadingOrConsecutive Separator (pre @ c # post) d (element c) = ''none''"
    using assms(1) by (intro hideLeadingOrConsecutive_hides)
  then show ?thesis
    by (simp add: hideSeparatorsIfNeeded_def hideTrailing_keeps_none)
qed

lemma hideSeparatorsIfNeeded_kept:
  assumes "distinct (map element (pre @ c # post))"
    and "\<not> (etype c = Separator
            \<and> (list_all isSeparator pre \<or> list_all isSeparator post
                \<or> (pre \<noteq> [] \<and> isSeparator (last pre))))"
  shows "hideSeparatorsIfNeeded (pre @ c # post) d (element c) = d (element c)"
proof -
  have notpre: "element c \<notin> element ` set pre" and notpost: "element c \<notin> element ` set post"
    using assms(1) by auto
  have nolead: "\<not> (etype c = Separator \<and> (if pre = [] then Separator else etype (last pre)) = Separator)"
    using assms(2) by (auto simp: isSeparator_def)
  have first: "hideLeadingOrConsecutive Separator (pre @ c # post) d (element c) = d (element c)"
    using nolead notpre notpost by (rule hideLeadingOrConsecutive_keeps)
  have stop: "\<not> (list_all isSeparator (rev post) \<and> isSeparator c)"
    using assms(2) by (auto simp: isSeparator_def list_all_iff)
  have "set (takeWhile isSeparator (rev post @ c # rev pre)) \<subseteq> set post"
  proof (cases "list_all isSeparator (rev post)")
    case True
    with stop have "\<not> isSeparator c" by blast
    with True show ?thesis by (simp add: takeWhile_append list_all_iff)
  next
    case False
    then have "takeWhile isSeparator (rev post @ c # rev pre) = takeWhile isSeparator (rev post)"
      by (auto simp: takeWhile_append list_all_iff)
    then show ?thesis using set_takeWhileD by fastforce
  qed
  then have "element c \<notin> element ` set (takeWhile isSeparator (rev (pre @ c # post)))"
    using notpost by auto
  then have "hideTrailing (rev (pre @ c # post))
      (hideLeadingOrConsecutive Separator (pre @ c # post) d) (element c)
    = hideLeadingOrConsecutive Separator (pre @ c # post) d (element c)"
    by (rule hideTrailing_other)
  then show ?thesis
    unfolding hideSeparatorsIfNeeded_def using first by simp
qed

subsection \<open>The separators of the overflow area\<close>

lemma menuCommandsWithType_split:
  "menuCommandsWithType (pre @ p # post) =
     map (\<lambda>(i, q). \<lparr>element = i, etype = mc_type q\<rparr>) (enumerate 0 pre)
     @ \<lparr>element = length pre, etype = mc_type p\<rparr>
     # map (\<lambda>(i, q). \<lparr>element = i, etype = mc_type q\<rparr>) (enumerate (Suc (length pre)) post)"
  by (simp add: menuCommandsWithType_def enumerate_append_eq)

lemma element_menuCommandsWithType:
  "map element (menuCommandsWithType ps) = [0..<length ps]"
proof -
  have "map element (menuCommandsWithType ps) = map fst (enumerate 0 ps)"
    by (simp add: menuCommandsWithType_def case_prod_unfold comp_def)
  then show ?thesis by simp
qed

lemma list_all_isSeparator_enumerate:
  "list_all isSeparator (map (\<lambda>(i, q). \<lparr>element = i, etype = mc_type q\<rparr>) (enumerate n ps))
     = list_all isSeparatorMenuCommand ps"
  by (induction ps arbitrary: n) (simp_all add: isSeparator_def isSeparatorMenuCommand_def)

lemma enumerate_Nil_iff: "enumerate n ps = [] \<longleftrightarrow> ps = []"
  by (cases ps) simp_all

lemma last_enumerate_type:
  assumes "ps \<noteq> []"
  shows "etype (last (map (\<lambda>(i, q). \<lparr>element = i, etype = mc_type q\<rparr>) (enumerate n ps)))
       = mc_type (last ps)"
proof -
  have ne: "enumerate n ps \<noteq> []" using assms by (simp add: enumerate_Nil_iff)
  have "last (enumerate n ps) = enumerate n ps ! (length ps - 1)"
    using ne by (simp add: last_conv_nth)
  also have "\<dots> = (n + (length ps - 1), ps ! (length ps - 1))"
    using assms by (simp add: nth_enumerate_eq)
  finally have "snd (last (enumerate n ps)) = last ps"
    using assms by (simp add: last_conv_nth)
  then show ?thesis
    using ne by (simp add: last_map case_prod_unfold)
qed

text \<open>
  Claim C5. After \<^verbatim>\<open>_layoutCommands\<close> the children of the overflow area are all the menu
  command projections, separators included: hiding a separator never removes it. For a
  projection \<open>p\<close> at any position of that list, its display is \<^verbatim>\<open>none\<close> when \<open>p\<close> is a
  separator that is leading (only separators before it), trailing (only separators after
  it) or immediately preceded by a separator; in every other case, an internal single
  separator among them, it is shown (the empty display).
\<close>

theorem layout_menu_separators:
  assumes "overflowAreaChildren (layoutWith m s) = pre @ p # post"
  shows "overflowAreaChildren (layoutWith m s) =
           menuCommandProjections
             (overflowArea (getPrimaryCommandsLocation m
                (resetPrimaryDisplay (primaryCommands s) (elementDisplay s))
                (primaryCommands s) (secondaryCommands s)))
             (secondaryCommands s)
       \<and> overflowAreaDisplay (layoutWith m s) (length pre) =
           (if mc_type p = Separator
               \<and> (list_all isSeparatorMenuCommand pre \<or> list_all isSeparatorMenuCommand post
                   \<or> (pre \<noteq> [] \<and> mc_type (last pre) = Separator))
            then ''none'' else [])"
proof -
  let ?pre = "map (\<lambda>(i, q). \<lparr>element = i, etype = mc_type q\<rparr>) (enumerate 0 pre)"
  let ?c = "\<lparr>element = length pre, etype = mc_type p\<rparr>"
  let ?post = "map (\<lambda>(i, q). \<lparr>element = i, etype = mc_type q\<rparr>) (enumerate (Suc (length pre)) post)"
  let ?cond = "etype ?c = Separator
      \<and> (list_all isSeparator ?pre \<or> list_all isSeparator ?post
          \<or> (?pre \<noteq> [] \<and> isSeparator (last ?pre)))"
  have children: "overflowAreaChildren (layoutWith m s) =
      menuCommandProjections
        (overflowArea (getPrimaryCommandsLocation m
           (resetPrimaryDisplay (primaryCommands s) (elementDisplay s))
           (primaryCommands s) (secondaryCommands s)))
        (secondaryCommands s)"
    by (simp add: layoutWith_def Let_def)
  have disp: "overflowAreaDisplay (layoutWith m s) =
      hideSeparatorsIfNeeded (menuCommandsWithType (overflowAreaChildren (layoutWith m s))) (\<lambda>_. [])"
    by (simp add: layoutWith_def Let_def)
  have split: "menuCommandsWithType (overflowAreaChildren (layoutWith m s)) = ?pre @ ?c # ?post"
    unfolding assms by (rule menuCommandsWithType_split)
  have dist: "distinct (map element (?pre @ ?c # ?post))"
    unfolding split [symmetric] element_menuCommandsWithType by simp
  have cond: "?cond \<longleftrightarrow>
      mc_type p = Separator
      \<and> (list_all isSeparatorMenuCommand pre \<or> list_all isSeparatorMenuCommand post
          \<or> (pre \<noteq> [] \<and> mc_type (last pre) = Separator))"
    using last_enumerate_type [of pre 0]
    by (cases "pre = []")
       (simp_all add: list_all_isSeparator_enumerate isSeparator_def enumerate_Nil_iff)
  define cnd where "cnd \<longleftrightarrow> ?cond"
  have "hideSeparatorsIfNeeded (?pre @ ?c # ?post) (\<lambda>_. []) (element ?c) =
      (if cnd then ''none'' else [])"
  proof (cases cnd)
    case True
    then have "hideSeparatorsIfNeeded (?pre @ ?c # ?post) (\<lambda>_. []) (element ?c) = ''none''"
      unfolding cnd_def by (intro hideSeparatorsIfNeeded_hidden) blast+
    with True show ?thesis by simp
  next
    case False
    then have "\<not> ?cond" unfolding cnd_def .
    with dist
    have "hideSeparatorsIfNeeded (?pre @ ?c # ?post) (\<lambda>_. []) (element ?c) = (\<lambda>_. []) (element ?c)"
      by (rule hideSeparatorsIfNeeded_kept)
    with False show ?thesis by simp
  qed
  then have "overflowAreaDisplay (layoutWith m s) (length pre) = (if cnd then ''none'' else [])"
    unfolding disp split by simp
  then show ?thesis
    using children unfolding cnd_def cond by blast
qed

lemma example_menu:
  "overflowAreaChildren
     (layoutWith exampleMeasurements
        (initialSurface\<lparr>primaryCommands := [button0, content1], secondaryCommands := [toggle5]\<rparr>))
   = [projectAsMenuCommand button0, projectAsMenuCommand content1,
      \<lparr>mc_type = Separator, mc_original = None\<rparr>, projectAsMenuCommand toggle5]"
  by (simp add: layoutWith_def getPrimaryCommandsLocation_def narrow_last_infos
      sortedCommandsInfo_def menuCommandProjections_def initialSurface_def Let_def)
     (simp add: exampleMeasurements_def toggle5_def jsMinusOne_def)

lemma example_menu_trailing:
  "overflowAreaChildren
     (layoutWith exampleMeasurements
        (initialSurface\<lparr>primaryCommands := [button0, content1],
           secondaryCommands := [hiddenToggle6]\<rparr>))
   = [projectAsMenuCommand button0, projectAsMenuCommand content1,
      \<lparr>mc_type = Separator, mc_original = None\<rparr>]"
  by (simp add: layoutWith_def getPrimaryCommandsLocation_def narrow_last_infos
      sortedCommandsInfo_def menuCommandProjections_def initialSurface_def Let_def)
     (simp add: exampleMeasurements_def hiddenToggle6_def jsMinusOne_def)

theorem layout_menu_separators_witness:
  "overflowAreaChildren
     (layoutWith exampleMeasurements
        (initialSurface\<lparr>primaryCommands := [button0, content1], secondaryCommands := [toggle5]\<rparr>))
   = [projectAsMenuCommand button0, projectAsMenuCommand content1]
     @ \<lparr>mc_type = Separator, mc_original = None\<rparr> # [projectAsMenuCommand toggle5]
   \<and> overflowAreaDisplay
        (layoutWith exampleMeasurements
           (initialSurface\<lparr>primaryCommands := [button0, content1], secondaryCommands := [toggle5]\<rparr>))
        2 = []
   \<and> overflowAreaChildren
        (layoutWith exampleMeasurements
           (initialSurface\<lparr>primaryCommands := [button0, content1],
              secondaryCommands := [hiddenToggle6]\<rparr>))
      = [projectAsMenuCommand button0, projectAsMenuCommand content1]
        @ \<lparr>mc_type = Separator, mc_original = None\<rparr> # []
   \<and> overflowAreaDisplay
        (layoutWith exampleMeasurements
           (initialSurface\<lparr>primaryCommands := [button0, content1],
              secondaryCommands := [hiddenToggle6]\<rparr>))
        2 = ''none''"
proof -
  have h: "overflowAreaChildren
     (layoutWith exampleMeasurements
        (initialSurface\<lparr>primaryCommands := [button0, content1], secondaryCommands := [toggle5]\<rparr>))
   = [projectAsMenuCommand button0, projectAsMenuCommand content1]
     @ \<lparr>mc_type = Separator, mc_original = None\<rparr> # [projectAsMenuCommand toggle5]"
    by (simp add: example_menu)
  have h': "overflowAreaChildren
     (layoutWith exampleMeasurements
        (initialSurface\<lparr>primaryCommands := [button0, content1],
           secondaryCommands := [hiddenToggle6]\<rparr>))
   = [projectAsMenuCommand button0, projectAsMenuCommand content1]
     @ \<lparr>mc_type = Separator, mc_original = None\<rparr> # []"
    by (simp add: example_menu_trailing)
  note t = layout_menu_separators [OF h]
  note t' = layout_menu_separators [OF h']
  have a: "overflowAreaDisplay
        (layoutWith exampleMeasurements
           (initialSurface\<lparr>primaryCommands := [button0, content1], secondaryCommands := [toggle5]\<rparr>))
        2 = []"
    using t
    by (simp add: isSeparatorMenuCommand_def projectAsMenuCommand_def content1_def toggle5_def
        numeral_2_eq_2)
  have b: "overflowAreaDisplay
        (layoutWith exampleMeasurements
           (initialSurface\<lparr>primaryCommands := [button0, content1],
              secondaryCommands := [hiddenToggle6]\<rparr>))
        2 = ''none''"
    using t' by (simp add: numeral_2_eq_2)
  show ?thesis
    using h h' a b by blast
qed

section \<open>What a measurement stores\<close>

lemma measure_loop_eq:
  "measure_loop doc cs (d, sw, stw, cw) =
     (d,
      if sw \<noteq> 0 then sw else firstNonZeroWidth doc isSeparatorCommand cs,
      if stw \<noteq> 0 then stw else firstNonZeroWidth doc isStandardCommand cs,
      \<lambda>k. if \<exists>c \<in> set cs. cmd_type c = Content \<and> cmd_id c = k
           then Some (commandTotalWidth doc k) else cw k)"
proof (induction cs arbitrary: sw stw cw)
  case Nil
  show ?case by (simp add: firstNonZeroWidth_def)
next
  case (Cons c cs)
  have d: "(d(cmd_id c := []))(cmd_id c := d (cmd_id c)) = d" by simp
  show ?case
    unfolding measure_loop.simps Let_def d Cons.IH
    by (auto simp: firstNonZeroWidth_def isSeparatorCommand_def isStandardCommand_def fun_eq_iff)
qed

lemma measureSurface_success:
  assumes "rootInBody doc" and "0 < actionAreaOffsetWidth doc"
  shows "measureSurface doc s =
     (True, s\<lparr>cachedMeasurements := Some
        \<lparr>overflowButtonWidth = overflowButtonTotalWidth doc,
         separatorWidth = firstNonZeroWidth doc isSeparatorCommand (primaryCommands s),
         standardCommandWidth = firstNonZeroWidth doc isStandardCommand (primaryCommands s),
         contentCommandWidths = measuredContentWidths doc (primaryCommands s),
         actionAreaContentBoxWidth = actionAreaContentWidth doc\<rparr>\<rparr>)"
  using assms
  by (simp add: measureSurface_def measure_loop_eq measuredContentWidths_def)

section \<open>The layout pipeline\<close>

lemma drainStages_idle: "drainStages pnd meas lay idle s calls = Inr (idle, s, calls)"
  by (subst drainStages.simps) simp

lemma drainStages_layoutStage:
  "drainStages pnd meas lay layoutStage s calls =
     (case lay s of
        Inl x \<Rightarrow> Inl x
      | Inr (ok, s') \<Rightarrow>
          if ok then Inr (idle, s', calls @ [(layoutStage, True)])
          else Inr (layoutStage, s', calls @ [(layoutStage, False)]))"
  by (subst drainStages.simps)
     (simp add: drainStages_idle [unfolded idle_def] layoutStage_def idle_def newDataStage_def
        measuringStage_def split: sum.splits prod.splits)

lemma drainStages_measuringStage:
  "drainStages pnd meas lay measuringStage s calls =
     (case meas s of
        Inl x \<Rightarrow> Inl x
      | Inr (ok, s') \<Rightarrow>
          if ok then drainStages pnd meas lay layoutStage s' (calls @ [(measuringStage, True)])
          else Inr (measuringStage, s', calls @ [(measuringStage, False)]))"
  by (subst drainStages.simps)
     (simp add: layoutStage_def idle_def newDataStage_def measuringStage_def
        split: sum.splits prod.splits)

lemma drainStages_newDataStage:
  "drainStages pnd meas lay newDataStage s calls =
     (case pnd s of
        Inl x \<Rightarrow> Inl x
      | Inr (ok, s') \<Rightarrow>
          if ok then drainStages pnd meas lay measuringStage s' (calls @ [(newDataStage, True)])
          else Inr (newDataStage, s', calls @ [(newDataStage, False)]))"
  by (subst drainStages.simps)
     (simp add: layoutStage_def idle_def newDataStage_def measuringStage_def
        split: sum.splits prod.splits)

lemmas drainStages_unfold =
  drainStages_idle drainStages_layoutStage drainStages_measuringStage drainStages_newDataStage

lemma stage_cases:
  "nextStage \<le> newDataStage \<Longrightarrow>
   nextStage = idle \<or> nextStage = layoutStage \<or> nextStage = measuringStage \<or> nextStage = newDataStage"
  by (auto simp: newDataStage_def measuringStage_def layoutStage_def idle_def)

lemma drainStages_trace:
  assumes "nextStage \<le> newDataStage"
  shows "case drainStages pnd meas lay nextStage s [] of
           Inl x \<Rightarrow> (\<exists>t. pnd t = Inl x) \<or> (\<exists>t. meas t = Inl x) \<or> (\<exists>t. lay t = Inl x)
         | Inr (n, s', calls) \<Rightarrow>
             map fst calls = rev [Suc (nextStage - length calls)..<Suc nextStage]
           \<and> list_all snd (butlast calls)
           \<and> n = (if calls \<noteq> [] \<and> \<not> snd (last calls) then fst (last calls) else idle)
           \<and> (list_all snd calls \<longrightarrow> length calls = nextStage)
           \<and> ((measuringStage, False) \<in> set calls \<longrightarrow>
                n = measuringStage \<and> layoutStage \<notin> fst ` set calls)"
proof -
  consider "nextStage = idle" | "nextStage = layoutStage" | "nextStage = measuringStage"
    | "nextStage = newDataStage"
    using stage_cases [OF assms] by blast
  then show ?thesis
  proof cases
    case 1
    then show ?thesis by (simp add: drainStages_unfold) (simp add: idle_def)
  next
    case 2
    then show ?thesis
      by (simp add: drainStages_unfold split: sum.splits prod.splits)
         (auto simp: idle_def layoutStage_def measuringStage_def)
  next
    case 3
    then show ?thesis
      by (simp add: drainStages_unfold split: sum.splits prod.splits)
         (auto simp: idle_def layoutStage_def measuringStage_def numeral_2_eq_2)
  next
    case 4
    then show ?thesis
      by (simp add: drainStages_unfold split: sum.splits prod.splits)
         (auto simp: idle_def layoutStage_def measuringStage_def newDataStage_def
            numeral_2_eq_2 numeral_3_eq_3)
  qed
qed

lemma measureSurface_fresh:
  "canMeasure doc \<Longrightarrow>
   measureSurface doc s = (True, s\<lparr>cachedMeasurements := Some (freshMeasurements doc s)\<rparr>)"
  by (simp add: canMeasure_def freshMeasurements_def measureSurface_success)

lemma measureSurface_fails: "\<not> canMeasure doc \<Longrightarrow> measureSurface doc s = (False, s)"
  by (auto simp: canMeasure_def measureSurface_def)

lemma updateCommands_idle:
  assumes "nextLayoutStage s = idle"
  shows "drainStages (\<lambda>s. Inr (processNewData s)) (\<lambda>s. Inr (measureSurface doc s)) layoutCommands
           (nextLayoutStage s) s [] = Inr (idle, s, [])"
    and "updateDomImpl_updateCommands doc s = Inr s"
  using assms by (simp_all add: updateDomImpl_updateCommands_def drainStages_unfold)

lemma updateCommands_layout:
  assumes "nextLayoutStage s = layoutStage"
  shows "drainStages (\<lambda>s. Inr (processNewData s)) (\<lambda>s. Inr (measureSurface doc s)) layoutCommands
           (nextLayoutStage s) s []
         = (case cachedMeasurements s of
              None \<Rightarrow> Inl TypeError
            | Some m \<Rightarrow> Inr (idle, layoutWith m s, [(layoutStage, True)]))"
    and "updateDomImpl_updateCommands doc s
         = (case cachedMeasurements s of
              None \<Rightarrow> Inl TypeError
            | Some m \<Rightarrow> Inr ((layoutWith m s)\<lparr>nextLayoutStage := idle\<rparr>))"
  using assms
  by (simp_all add: updateDomImpl_updateCommands_def drainStages_unfold layoutCommands_def
      split: option.splits)

lemma updateCommands_measuring_fails:
  assumes "nextLayoutStage s = measuringStage" and "\<not> canMeasure doc"
  shows "drainStages (\<lambda>s. Inr (processNewData s)) (\<lambda>s. Inr (measureSurface doc s)) layoutCommands
           (nextLayoutStage s) s [] = Inr (measuringStage, s, [(measuringStage, False)])"
    and "updateDomImpl_updateCommands doc s = Inr s"
  using assms
  by (simp_all add: updateDomImpl_updateCommands_def drainStages_unfold measureSurface_fails)

lemma updateCommands_newData_fails:
  assumes "nextLayoutStage s = newDataStage" and "\<not> canMeasure doc"
  shows "drainStages (\<lambda>s. Inr (processNewData s)) (\<lambda>s. Inr (measureSurface doc s)) layoutCommands
           (nextLayoutStage s) s []
         = Inr (measuringStage, s, [(newDataStage, True), (measuringStage, False)])"
    and "updateDomImpl_updateCommands doc s = Inr (s\<lparr>nextLayoutStage := measuringStage\<rparr>)"
  using assms
  by (simp_all add: updateDomImpl_updateCommands_def drainStages_unfold measureSurface_fails
      processNewData_def)

lemma updateCommands_measuring_drains:
  assumes "nextLayoutStage s = measuringStage" and "canMeasure doc"
  shows "drainStages (\<lambda>s. Inr (processNewData s)) (\<lambda>s. Inr (measureSurface doc s)) layoutCommands
           (nextLayoutStage s) s []
         = Inr (idle,
                layoutWith (freshMeasurements doc s)
                  (s\<lparr>cachedMeasurements := Some (freshMeasurements doc s)\<rparr>),
                [(measuringStage, True), (layoutStage, True)])"
    and "updateDomImpl_updateCommands doc s
         = Inr ((layoutWith (freshMeasurements doc s)
                   (s\<lparr>cachedMeasurements := Some (freshMeasurements doc s)\<rparr>))
                 \<lparr>nextLayoutStage := idle\<rparr>)"
  using assms
  by (simp_all add: updateDomImpl_updateCommands_def drainStages_unfold measureSurface_fresh
      layoutCommands_def)

lemma updateCommands_newData_drains:
  assumes "nextLayoutStage s = newDataStage" and "canMeasure doc"
  shows "drainStages (\<lambda>s. Inr (processNewData s)) (\<lambda>s. Inr (measureSurface doc s)) layoutCommands
           (nextLayoutStage s) s []
         = Inr (idle,
                layoutWith (freshMeasurements doc s)
                  (s\<lparr>cachedMeasurements := Some (freshMeasurements doc s)\<rparr>),
                [(newDataStage, True), (measuringStage, True), (layoutStage, True)])"
    and "updateDomImpl_updateCommands doc s
         = Inr ((layoutWith (freshMeasurements doc s)
                   (s\<lparr>cachedMeasurements := Some (freshMeasurements doc s)\<rparr>))
                 \<lparr>nextLayoutStage := idle\<rparr>)"
  using assms
  by (simp_all add: updateDomImpl_updateCommands_def drainStages_unfold measureSurface_fresh
      layoutCommands_def processNewData_def)

text \<open>
  Claim C7. A run of \<^verbatim>\<open>_updateDomImpl_updateCommands\<close> calls the stage actions from the
  pending stage \<^verbatim>\<open>_nextLayoutStage\<close> downwards, new data, then measuring, then layout, and
  stores the stage it stops at in \<^verbatim>\<open>_nextLayoutStage\<close>. The calls and the stored stage are,
  for each pending stage:

    \<^item> idle: no action is called and the state is left as it is;
    \<^item> layout: the layout action alone is called, and idle is stored (the action throws
      when there is no cached snapshot to read);
    \<^item> measuring, when \<^verbatim>\<open>_measure\<close> cannot measure: the measuring action alone is called, it
      reports failure, the run stops, and measuring stays pending; the layout action is
      not called;
    \<^item> new data, when \<^verbatim>\<open>_measure\<close> cannot measure: the new data action and then the
      measuring action are called, the second reports failure, the run stops, and
      measuring is stored; the layout action is not called;
    \<^item> measuring or new data, when \<^verbatim>\<open>_measure\<close> can measure: every action from the pending
      stage down to the layout stage is called in this order, each reports success, the
      layout is computed from the snapshot just measured, and idle is stored.

  The loop behaves in the same way with any three stage actions, whether they report
  failure or throw: from a pending stage of the pipeline, the stages called are the pending
  stage and the stages below it in strictly descending order, one step at a time; every
  call but the last reported success; when the last call reported failure the stage left
  pending is exactly the stage of that call, and otherwise it is idle and every stage down
  to the layout stage was called; when the measuring action fails the measuring stage is
  left pending and the layout action is not called; an exception that leaves the loop was
  thrown by one of the actions.
\<close>

theorem updateDomImpl_updateCommands_stages:
  fixes pnd meas lay :: "'s \<Rightarrow> 'x + bool \<times> 's"
  shows
  "(let run = drainStages (\<lambda>s. Inr (processNewData s)) (\<lambda>s. Inr (measureSurface doc s))
                layoutCommands (nextLayoutStage s) s [];
        measured = s\<lparr>cachedMeasurements := Some (freshMeasurements doc s)\<rparr>;
        laidOut = layoutWith (freshMeasurements doc s) measured
    in updateDomImpl_updateCommands doc s
         = (case run of
              Inl x \<Rightarrow> Inl x
            | Inr (nextStage, s', calls) \<Rightarrow> Inr (s'\<lparr>nextLayoutStage := nextStage\<rparr>))
     \<and> (nextLayoutStage s = idle \<longrightarrow>
          run = Inr (idle, s, []) \<and> updateDomImpl_updateCommands doc s = Inr s)
     \<and> (nextLayoutStage s = layoutStage \<longrightarrow>
          run = (case cachedMeasurements s of
                   None \<Rightarrow> Inl TypeError
                 | Some m \<Rightarrow> Inr (idle, layoutWith m s, [(layoutStage, True)]))
        \<and> updateDomImpl_updateCommands doc s
            = (case cachedMeasurements s of
                 None \<Rightarrow> Inl TypeError
               | Some m \<Rightarrow> Inr ((layoutWith m s)\<lparr>nextLayoutStage := idle\<rparr>)))
     \<and> (nextLayoutStage s = measuringStage \<and> \<not> canMeasure doc \<longrightarrow>
          run = Inr (measuringStage, s, [(measuringStage, False)])
        \<and> updateDomImpl_updateCommands doc s = Inr s)
     \<and> (nextLayoutStage s = newDataStage \<and> \<not> canMeasure doc \<longrightarrow>
          run = Inr (measuringStage, s, [(newDataStage, True), (measuringStage, False)])
        \<and> updateDomImpl_updateCommands doc s = Inr (s\<lparr>nextLayoutStage := measuringStage\<rparr>))
     \<and> (nextLayoutStage s = measuringStage \<and> canMeasure doc \<longrightarrow>
          run = Inr (idle, laidOut, [(measuringStage, True), (layoutStage, True)])
        \<and> updateDomImpl_updateCommands doc s = Inr (laidOut\<lparr>nextLayoutStage := idle\<rparr>))
     \<and> (nextLayoutStage s = newDataStage \<and> canMeasure doc \<longrightarrow>
          run = Inr (idle, laidOut,
                     [(newDataStage, True), (measuringStage, True), (layoutStage, True)])
        \<and> updateDomImpl_updateCommands doc s = Inr (laidOut\<lparr>nextLayoutStage := idle\<rparr>)))
   \<and> (stage \<le> newDataStage \<longrightarrow>
        (case drainStages pnd meas lay stage s0 [] of
           Inl x \<Rightarrow> (\<exists>t. pnd t = Inl x) \<or> (\<exists>t. meas t = Inl x) \<or> (\<exists>t. lay t = Inl x)
         | Inr (n, s', calls) \<Rightarrow>
             map fst calls = rev [Suc (stage - length calls)..<Suc stage]
           \<and> list_all snd (butlast calls)
           \<and> n = (if calls \<noteq> [] \<and> \<not> snd (last calls) then fst (last calls) else idle)
           \<and> (list_all snd calls \<longrightarrow> length calls = stage)
           \<and> ((measuringStage, False) \<in> set calls \<longrightarrow>
                n = measuringStage \<and> layoutStage \<notin> fst ` set calls)))"
proof -
  have link: "updateDomImpl_updateCommands doc s
      = (case drainStages (\<lambda>s. Inr (processNewData s)) (\<lambda>s. Inr (measureSurface doc s))
                layoutCommands (nextLayoutStage s) s [] of
           Inl x \<Rightarrow> Inl x
         | Inr (nextStage, s', calls) \<Rightarrow> Inr (s'\<lparr>nextLayoutStage := nextStage\<rparr>))"
    by (simp add: updateDomImpl_updateCommands_def)
  have generic: "stage \<le> newDataStage \<longrightarrow>
        (case drainStages pnd meas lay stage s0 [] of
           Inl x \<Rightarrow> (\<exists>t. pnd t = Inl x) \<or> (\<exists>t. meas t = Inl x) \<or> (\<exists>t. lay t = Inl x)
         | Inr (n, s', calls) \<Rightarrow>
             map fst calls = rev [Suc (stage - length calls)..<Suc stage]
           \<and> list_all snd (butlast calls)
           \<and> n = (if calls \<noteq> [] \<and> \<not> snd (last calls) then fst (last calls) else idle)
           \<and> (list_all snd calls \<longrightarrow> length calls = stage)
           \<and> ((measuringStage, False) \<in> set calls \<longrightarrow>
                n = measuringStage \<and> layoutStage \<notin> fst ` set calls))"
    using drainStages_trace [of stage pnd meas lay s0] by blast
  show ?thesis
    unfolding Let_def
    apply (intro conjI impI)
                apply (rule link)
               apply (erule updateCommands_idle(1))
              apply (erule updateCommands_idle(2))
             apply (erule updateCommands_layout(1))
            apply (erule updateCommands_layout(2))
           apply (erule conjE, erule (1) updateCommands_measuring_fails(1))
          apply (erule conjE, erule (1) updateCommands_measuring_fails(2))
         apply (erule conjE, erule (1) updateCommands_newData_fails(1))
        apply (erule conjE, erule (1) updateCommands_newData_fails(2))
       apply (erule conjE, erule (1) updateCommands_measuring_drains(1))
      apply (erule conjE, erule (1) updateCommands_measuring_drains(2))
     apply (erule conjE, erule (1) updateCommands_newData_drains(1))
    apply (erule conjE, erule (1) updateCommands_newData_drains(2))
    apply (rule generic [rule_format], assumption)
    done
qed

theorem updateDomImpl_updateCommands_stages_witness:
  "nextLayoutStage (dataDirty initialSurface) = newDataStage
   \<and> \<not> canMeasure detachedDom
   \<and> updateDomImpl_updateCommands detachedDom (dataDirty initialSurface)
     = Inr (initialSurface\<lparr>nextLayoutStage := measuringStage\<rparr>)
   \<and> drainStages (\<lambda>s. Inr (processNewData s)) (\<lambda>s. Inr (measureSurface detachedDom s))
       layoutCommands newDataStage (dataDirty initialSurface) []
     = Inr (measuringStage, dataDirty initialSurface,
            [(newDataStage, True), (measuringStage, False)])
   \<and> canMeasure attachedDom
   \<and> (case updateDomImpl_updateCommands attachedDom (dataDirty initialSurface) of
        Inl x \<Rightarrow> False
      | Inr s' \<Rightarrow>
          nextLayoutStage s' = idle
        \<and> cachedMeasurements s' = Some (freshMeasurements attachedDom initialSurface))"
proof -
  have a: "nextLayoutStage (dataDirty initialSurface) = newDataStage"
    by (simp add: dataDirty_def initialSurface_def idle_def newDataStage_def)
  have b: "\<not> canMeasure detachedDom"
    by (simp add: canMeasure_def detachedDom_def)
  have c: "canMeasure attachedDom"
    by (simp add: canMeasure_def attachedDom_def)
  have d: "newDataStage \<le> newDataStage" by simp
  have e: "dataDirty initialSurface = initialSurface\<lparr>nextLayoutStage := newDataStage\<rparr>"
    by (simp add: dataDirty_def initialSurface_def idle_def newDataStage_def)
  note t1 = updateDomImpl_updateCommands_stages [of detachedDom "dataDirty initialSurface"
      newDataStage "\<lambda>s. Inr (processNewData s)" "\<lambda>s. Inr (measureSurface detachedDom s)"
      layoutCommands "dataDirty initialSurface"]
  note t2 = updateDomImpl_updateCommands_stages [of attachedDom "dataDirty initialSurface"
      newDataStage "\<lambda>s. Inr (processNewData s)" "\<lambda>s. Inr (measureSurface attachedDom s)"
      layoutCommands "dataDirty initialSurface"]
  have r1: "updateDomImpl_updateCommands detachedDom (dataDirty initialSurface)
     = Inr (initialSurface\<lparr>nextLayoutStage := measuringStage\<rparr>)"
    using t1 a b d by (simp add: Let_def e)
  have r2: "drainStages (\<lambda>s. Inr (processNewData s)) (\<lambda>s. Inr (measureSurface detachedDom s))
       layoutCommands newDataStage (dataDirty initialSurface) []
     = Inr (measuringStage, dataDirty initialSurface,
            [(newDataStage, True), (measuringStage, False)])"
    using t1 a b d by (simp add: Let_def)
  have r3: "updateDomImpl_updateCommands attachedDom (dataDirty initialSurface)
     = Inr ((layoutWith (freshMeasurements attachedDom (dataDirty initialSurface))
               ((dataDirty initialSurface)\<lparr>cachedMeasurements :=
                  Some (freshMeasurements attachedDom (dataDirty initialSurface))\<rparr>))
             \<lparr>nextLayoutStage := idle\<rparr>)"
    using t2 a c d by (simp add: Let_def)
  have f: "freshMeasurements attachedDom (dataDirty initialSurface)
      = freshMeasurements attachedDom initialSurface"
    by (simp add: freshMeasurements_def dataDirty_def)
  show ?thesis
    using a b c r1 r2 by (simp add: r3 f layoutWith_def Let_def)
qed

lemma updateCommands_measure_fails:
  assumes "nextLayoutStage s = newDataStage \<or> nextLayoutStage s = measuringStage"
    and "\<not> (rootInBody doc \<and> 0 < actionAreaOffsetWidth doc)"
  shows "updateDomImpl_updateCommands doc s = Inr (s\<lparr>nextLayoutStage := measuringStage\<rparr>)"
  using assms
  by (auto simp: updateDomImpl_updateCommands_def drainStages_unfold processNewData_def
      measureSurface_def)

lemma applyEvent_request:
  "isRequest e \<Longrightarrow>
   applyEvent e s = Inr (s\<lparr>nextLayoutStage := max (requestedStage e) (nextLayoutStage s)\<rparr>)"
  by (cases e) (simp_all add: dataDirty_def meaurementsDirty_def layoutDirty_def)

lemma Max_insert_max:
  "finite A \<Longrightarrow> Max (insert (max a b) A) = Max (insert (b::nat) (insert a A))"
  by (cases "A = {}") (simp_all add: max.assoc max.commute max.left_commute)

text \<open>
  Claim C6 as stated fails. Starting idle, a data change asks for the new data stage, and
  the run that follows finds the root outside the document: the new data action succeeds,
  the measuring action fails, and the measuring stage is left pending. The pipeline has not
  drained to idle, the greatest stage asked for since it last did is the new data stage,
  and the pending stage is below it.
\<close>

theorem pending_below_requested_after_failed_run:
  "(case applyEvents [DataDirty, UpdateCommands detachedDom] initialSurface of
      Inl x \<Rightarrow> idle
    | Inr s \<Rightarrow> nextLayoutStage s) = measuringStage
   \<and> spec_maxRequested [DataDirty, UpdateCommands detachedDom] initialSurface idle = newDataStage
   \<and> measuringStage < newDataStage"
proof -
  have d: "nextLayoutStage (dataDirty initialSurface) = newDataStage"
    by (simp add: dataDirty_def initialSurface_def idle_def)
  have r: "updateDomImpl_updateCommands detachedDom (dataDirty initialSurface)
      = Inr (dataDirty initialSurface\<lparr>nextLayoutStage := measuringStage\<rparr>)"
    by (rule updateCommands_measure_fails) (simp_all add: d detachedDom_def)
  show ?thesis
    by (simp add: r d) (simp add: measuringStage_def newDataStage_def idle_def)
qed

text \<open>
  Claim C6, amended. Take the state \<open>s\<close> the most recent run has left (idle when it drained,
  the failed stage when it was aborted) or the initial state. After any sequence of the
  three invalidations the pending stage is the maximum of the stage pending in \<open>s\<close> and the
  stages asked for since, and nothing else of the state has changed; each invalidation sets the
  pending stage to the maximum of its stage and the pending one.
\<close>

theorem pending_stage_is_max_since_last_run:
  assumes "list_all isRequest es"
  shows "applyEvents es s =
           Inr (s\<lparr>nextLayoutStage := Max (set (nextLayoutStage s # map requestedStage es))\<rparr>)
       \<and> list_all (\<lambda>e. applyEvent e s =
             Inr (s\<lparr>nextLayoutStage := max (requestedStage e) (nextLayoutStage s)\<rparr>)) es"
proof -
  have "applyEvents es s =
      Inr (s\<lparr>nextLayoutStage := Max (set (nextLayoutStage s # map requestedStage es))\<rparr>)"
    using assms
  proof (induction es arbitrary: s)
    case Nil
    show ?case by simp
  next
    case (Cons e es)
    let ?s = "s\<lparr>nextLayoutStage := max (requestedStage e) (nextLayoutStage s)\<rparr>"
    have e: "applyEvent e s = Inr ?s" using Cons.prems by (simp add: applyEvent_request)
    have "applyEvents es ?s =
        Inr (?s\<lparr>nextLayoutStage := Max (set (nextLayoutStage ?s # map requestedStage es))\<rparr>)"
      using Cons.prems by (intro Cons.IH) simp
    then show ?case
      using e by (simp add: Max_insert_max)
  qed
  moreover have "list_all (\<lambda>e. applyEvent e s =
      Inr (s\<lparr>nextLayoutStage := max (requestedStage e) (nextLayoutStage s)\<rparr>)) es"
    using assms by (simp add: list_all_iff applyEvent_request)
  ultimately show ?thesis by blast
qed

theorem pending_stage_is_max_since_last_run_witness:
  "list_all isRequest [LayoutDirty, MeaurementsDirty, LayoutDirty]
   \<and> applyEvents [LayoutDirty, MeaurementsDirty, LayoutDirty] initialSurface
       = Inr (initialSurface\<lparr>nextLayoutStage := measuringStage\<rparr>)"
proof -
  have h: "list_all isRequest [LayoutDirty, MeaurementsDirty, LayoutDirty]" by simp
  note t = pending_stage_is_max_since_last_run [OF h, of initialSurface]
  show ?thesis
    using h t
    by (simp add: layoutDirty_def meaurementsDirty_def initialSurface_def idle_def layoutStage_def
        measuringStage_def)
qed

section \<open>Measurement\<close>

text \<open>
  Claim C8 fails on the code. The claim, like the comments of \<^verbatim>\<open>_measure\<close> (``Measure the
  first 'separator' command type we find'', ``Measure the first one we find''), has the
  snapshot hold the width of the first separator and of the first standard command. The
  code tests \<^verbatim>\<open>!separatorWidth\<close> for ``not measured yet'', which also holds after a separator
  was measured with width 0. Here the root is in the document and the action area has a
  positive width, so the measurement succeeds. The first separator measures 0 and the
  second 34: the second is measured as well, and the snapshot keeps 34, which is not the
  width of the first separator.
\<close>

theorem measure_skips_zero_width_separator:
  "rootInBody attachedDom \<and> 0 < actionAreaOffsetWidth attachedDom
   \<and> fst (measureSurface attachedDom (initialSurface\<lparr>primaryCommands := [separator3, separator4]\<rparr>))
   \<and> map_option separatorWidth (cachedMeasurements (snd (measureSurface attachedDom
         (initialSurface\<lparr>primaryCommands := [separator3, separator4]\<rparr>)))) = Some 34
   \<and> cmd_type separator3 = Separator
   \<and> commandTotalWidth attachedDom (cmd_id separator3) = 0"
  by (simp add: measureSurface_def attachedDom_def separator3_def separator4_def Let_def)

text \<open>
  What \<^verbatim>\<open>_measure\<close> does on every input. When the root is not in the document or the offset
  width of the action area is not positive, it returns false and leaves the whole state,
  the cached snapshot included (also when there is none yet), as it was. Otherwise it
  returns true and replaces the snapshot by what it has just read: the total width of the
  overflow button, the width of the first separator that measures a non-zero width (0 when
  there is none), the width of the first standard command that measures a non-zero width
  (0 when there is none), one width for each content command, and the content width of the
  action area; nothing else of the state changes.
\<close>

lemma measureSurface_result:
  "(\<not> rootInBody doc \<or> actionAreaOffsetWidth doc \<le> 0 \<longrightarrow> measureSurface doc s = (False, s))
   \<and> (rootInBody doc \<and> 0 < actionAreaOffsetWidth doc \<longrightarrow>
        measureSurface doc s =
          (True, s\<lparr>cachedMeasurements := Some
             \<lparr>overflowButtonWidth = overflowButtonTotalWidth doc,
              separatorWidth = firstNonZeroWidth doc isSeparatorCommand (primaryCommands s),
              standardCommandWidth = firstNonZeroWidth doc isStandardCommand (primaryCommands s),
              contentCommandWidths = measuredContentWidths doc (primaryCommands s),
              actionAreaContentBoxWidth = actionAreaContentWidth doc\<rparr>\<rparr>))"
proof (intro conjI impI)
  assume "\<not> rootInBody doc \<or> actionAreaOffsetWidth doc \<le> 0"
  then show "measureSurface doc s = (False, s)"
    by (auto simp: measureSurface_def)
next
  assume "rootInBody doc \<and> 0 < actionAreaOffsetWidth doc"
  then show "measureSurface doc s =
      (True, s\<lparr>cachedMeasurements := Some
         \<lparr>overflowButtonWidth = overflowButtonTotalWidth doc,
          separatorWidth = firstNonZeroWidth doc isSeparatorCommand (primaryCommands s),
          standardCommandWidth = firstNonZeroWidth doc isStandardCommand (primaryCommands s),
          contentCommandWidths = measuredContentWidths doc (primaryCommands s),
          actionAreaContentBoxWidth = actionAreaContentWidth doc\<rparr>\<rparr>)"
    by (simp add: measureSurface_success)
qed

lemma measureSurface_result_example:
  "measureSurface detachedDom initialSurface = (False, initialSurface)
   \<and> measureSurface attachedDom (initialSurface\<lparr>primaryCommands := [button0, separator4]\<rparr>) =
       (True, initialSurface\<lparr>primaryCommands := [button0, separator4],
          cachedMeasurements := Some
            \<lparr>overflowButtonWidth = 32, separatorWidth = 34, standardCommandWidth = 68,
             contentCommandWidths = measuredContentWidths attachedDom [button0, separator4],
             actionAreaContentBoxWidth = 320\<rparr>\<rparr>)"
  using measureSurface_result [of detachedDom initialSurface]
    measureSurface_result [of attachedDom "initialSurface\<lparr>primaryCommands := [button0, separator4]\<rparr>"]
  by (simp add: detachedDom_def attachedDom_def firstNonZeroWidth_def isSeparatorCommand_def
      isStandardCommand_def button0_def separator4_def)

section \<open>Keyboard navigation\<close>

lemma backward_never_wraps:
  "- 1 \<le> i \<Longrightarrow> i < n \<Longrightarrow> (max (i - 1) 0) mod n = max (i - 1) (0::int)"
  by (simp add: max_def)

lemma getFocusableElementsInfo_loop_range:
  "- 1 \<le> focusedIndex info \<Longrightarrow> focusedIndex info < int (length (elements info)) \<Longrightarrow>
   - 1 \<le> focusedIndex (getFocusableElementsInfo_loop isElementFocusable containsActive xs info)
   \<and> focusedIndex (getFocusableElementsInfo_loop isElementFocusable containsActive xs info)
       < int (length (elements
           (getFocusableElementsInfo_loop isElementFocusable containsActive xs info)))"
  by (induction xs arbitrary: info) (auto simp: Let_def)

lemma getFocusableElementsInfo_range:
  assumes "info = getFocusableElementsInfo isElementFocusable containsActive actionChildren
             overflowDisplayStyle overflowChildren"
  shows "- 1 \<le> focusedIndex info" and "focusedIndex info < int (length (elements info))"
  using getFocusableElementsInfo_loop_range
    [of "\<lparr>elements = [], focusedIndex = - 1\<rparr>" isElementFocusable containsActive
      "actionChildren @ (if overflowDisplayStyle \<noteq> ''none'' then overflowChildren else [])"]
  unfolding assms getFocusableElementsInfo_def Let_def by simp_all

text \<open>
  Claim C9 as stated fails: the backward path does not wrap around. Three elements are
  focusable and the first holds the focus, so the focused index is 0. The backward keys
  (left, up) compute \<open>max (0 - 1) 0 = 0\<close> and \<open>0 mod 3 = 0\<close>: the first element is chosen
  again, not the last one (index 2). The same happens when no element holds the focus
  (index -1).
\<close>

theorem keyDownHandler_backward_stays_at_first:
  "getFocusableElementsInfo (\<lambda>e. True) (\<lambda>e. e = 10) [10::nat, 11, 12] ''none'' []
     = \<lparr>elements = [10, 11, 12], focusedIndex = 0\<rparr>
   \<and> keyDownHandler False \<lparr>altKey = False, targetIsInteractive = False, keyCode = LeftArrow\<rparr>
       (getFocusableElementsInfo (\<lambda>e. True) (\<lambda>e. e = 10) [10::nat, 11, 12] ''none'' [])
     = Some (0, LastElementFocus)
   \<and> keyDownHandler False \<lparr>altKey = False, targetIsInteractive = False, keyCode = UpArrow\<rparr>
       (getFocusableElementsInfo (\<lambda>e. True) (\<lambda>e. e = 10) [10::nat, 11, 12] ''none'' [])
     = Some (0, LastElementFocus)
   \<and> keyDownHandler False \<lparr>altKey = False, targetIsInteractive = False, keyCode = LeftArrow\<rparr>
       (getFocusableElementsInfo (\<lambda>e. True) (\<lambda>e. False) [10::nat, 11, 12] ''none'' [])
     = Some (0, LastElementFocus)"
  by (simp add: getFocusableElementsInfo_def keyDownHandler_def Let_def)

text \<open>
  Claim C9, amended. Let \<^verbatim>\<open>_getFocusableElementsInfo\<close> return a non-empty list of focusable
  elements, of length \<open>n\<close>, with focused index \<open>i\<close>; then \<open>i\<close> is -1 (no element of the list
  holds the focus) or an index of the list. For a key event without the alt key whose
  target is not interactive, \<^verbatim>\<open>_keyDownHandler\<close> chooses the element at index 0 for home, at
  \<open>n - 1\<close> for end, at \<open>min (i + 1) (n - 1)\<close> for the forward keys (down, and right or, in
  right-to-left mode, left), and at \<open>max (i - 1) 0\<close> for the backward keys (up, and left
  or, in right-to-left mode, right). The backward index is taken modulo \<open>n\<close>, which never
  changes it: neither path wraps around. With the alt key or an interactive target no
  element is chosen.
\<close>

theorem keyDownHandler_target:
  assumes "info = getFocusableElementsInfo isElementFocusable containsActive actionChildren
             overflowDisplayStyle overflowChildren"
    and "elements info \<noteq> []"
  shows "(altKey ev \<or> targetIsInteractive ev \<longrightarrow> keyDownHandler rtl ev info = None)
       \<and> (\<not> altKey ev \<and> \<not> targetIsInteractive ev \<longrightarrow>
            (keyCode ev = Home \<longrightarrow> keyDownHandler rtl ev info = Some (0, FirstElementFocus))
          \<and> (keyCode ev = End \<longrightarrow>
               keyDownHandler rtl ev info
                 = Some (int (length (elements info)) - 1, LastElementFocus))
          \<and> (keyCode ev = DownArrow \<or> keyCode ev = (if rtl then LeftArrow else RightArrow) \<longrightarrow>
               keyDownHandler rtl ev info =
                 Some (min (focusedIndex info + 1) (int (length (elements info)) - 1),
                       FirstElementFocus))
          \<and> (keyCode ev = UpArrow \<or> keyCode ev = (if rtl then RightArrow else LeftArrow) \<longrightarrow>
               keyDownHandler rtl ev info = Some (max (focusedIndex info - 1) 0, LastElementFocus)))
       \<and> - 1 \<le> focusedIndex info \<and> focusedIndex info < int (length (elements info))
       \<and> (max (focusedIndex info - 1) 0) mod int (length (elements info))
           = max (focusedIndex info - 1) 0"
proof -
  let ?n = "int (length (elements info))"
  let ?i = "focusedIndex info"
  have lo: "- 1 \<le> ?i" and hi: "?i < ?n"
    using getFocusableElementsInfo_range [OF assms(1)] by simp_all
  have n: "0 < ?n" using assms(2) by simp
  have w: "(max (?i - 1) 0) mod ?n = max (?i - 1) 0"
    using lo hi by (rule backward_never_wraps)
  have w': "(max 0 (?i - 1)) mod ?n = max (?i - 1) 0"
    using w by (simp add: max.commute)
  have b: "0 \<le> max (?i - 1) 0" "max (?i - 1) 0 < ?n"
    using n hi by simp_all
  have f: "0 \<le> min (?i + 1) (?n - 1)" "min (?i + 1) (?n - 1) < ?n"
    using n lo by simp_all
  have none: "altKey ev \<or> targetIsInteractive ev \<longrightarrow> keyDownHandler rtl ev info = None"
    by (auto simp: keyDownHandler_def)
  have some: "\<not> altKey ev \<and> \<not> targetIsInteractive ev \<longrightarrow>
            (keyCode ev = Home \<longrightarrow> keyDownHandler rtl ev info = Some (0, FirstElementFocus))
          \<and> (keyCode ev = End \<longrightarrow>
               keyDownHandler rtl ev info = Some (?n - 1, LastElementFocus))
          \<and> (keyCode ev = DownArrow \<or> keyCode ev = (if rtl then LeftArrow else RightArrow) \<longrightarrow>
               keyDownHandler rtl ev info = Some (min (?i + 1) (?n - 1), FirstElementFocus))
          \<and> (keyCode ev = UpArrow \<or> keyCode ev = (if rtl then RightArrow else LeftArrow) \<longrightarrow>
               keyDownHandler rtl ev info = Some (max (?i - 1) 0, LastElementFocus))"
    using n b f by (auto simp: keyDownHandler_def Let_def w')
  from none some lo hi w show ?thesis by blast
qed

theorem keyDownHandler_target_witness:
  "elements (getFocusableElementsInfo (\<lambda>e. e \<noteq> 13) (\<lambda>e. e = 12) [10::nat, 13, 11] [] [12])
     = [10, 11, 12]
   \<and> focusedIndex (getFocusableElementsInfo (\<lambda>e. e \<noteq> 13) (\<lambda>e. e = 12) [10::nat, 13, 11] [] [12])
     = 2
   \<and> keyDownHandler False \<lparr>altKey = False, targetIsInteractive = False, keyCode = LeftArrow\<rparr>
       (getFocusableElementsInfo (\<lambda>e. e \<noteq> 13) (\<lambda>e. e = 12) [10::nat, 13, 11] [] [12])
     = Some (1, LastElementFocus)
   \<and> keyDownHandler False \<lparr>altKey = False, targetIsInteractive = False, keyCode = RightArrow\<rparr>
       (getFocusableElementsInfo (\<lambda>e. e \<noteq> 13) (\<lambda>e. e = 12) [10::nat, 13, 11] [] [12])
     = Some (2, FirstElementFocus)
   \<and> keyDownHandler True \<lparr>altKey = False, targetIsInteractive = False, keyCode = Home\<rparr>
       (getFocusableElementsInfo (\<lambda>e. e \<noteq> 13) (\<lambda>e. e = 12) [10::nat, 13, 11] [] [12])
     = Some (0, FirstElementFocus)
   \<and> keyDownHandler True \<lparr>altKey = False, targetIsInteractive = False, keyCode = End\<rparr>
       (getFocusableElementsInfo (\<lambda>e. e \<noteq> 13) (\<lambda>e. e = 12) [10::nat, 13, 11] [] [12])
     = Some (2, LastElementFocus)
   \<and> keyDownHandler False \<lparr>altKey = True, targetIsInteractive = False, keyCode = Home\<rparr>
       (getFocusableElementsInfo (\<lambda>e. e \<noteq> 13) (\<lambda>e. e = 12) [10::nat, 13, 11] [] [12])
     = None"
proof -
  let ?info = "getFocusableElementsInfo (\<lambda>e. e \<noteq> 13) (\<lambda>e. e = 12) [10::nat, 13, 11] [] [12]"
  have i: "?info = \<lparr>elements = [10, 11, 12], focusedIndex = 2\<rparr>"
    by (simp add: getFocusableElementsInfo_def Let_def)
  have ne: "elements ?info \<noteq> []" by (simp add: i)
  note t = keyDownHandler_target [OF refl ne]
  show ?thesis
    using t [of "\<lparr>altKey = False, targetIsInteractive = False, keyCode = LeftArrow\<rparr>" False]
      t [of "\<lparr>altKey = False, targetIsInteractive = False, keyCode = RightArrow\<rparr>" False]
      t [of "\<lparr>altKey = False, targetIsInteractive = False, keyCode = Home\<rparr>" True]
      t [of "\<lparr>altKey = False, targetIsInteractive = False, keyCode = End\<rparr>" True]
      t [of "\<lparr>altKey = True, targetIsInteractive = False, keyCode = Home\<rparr>" False]
    by (simp add: i)
qed


section \<open>The closedDisplayMode property\<close>

lemma set_closedDisplayMode_ignored:
  "v \<notin> set (map fst ClosedDisplayMode) \<Longrightarrow> v \<notin> set ObjectPrototype \<Longrightarrow>
   set_closedDisplayMode v s = s"
  by (simp add: set_closedDisplayMode_def ClosedDisplayMode_truthy_def ClosedDisplayMode_def
      ObjectPrototype_def)

lemma set_closedDisplayMode_same: "set_closedDisplayMode (closedDisplayMode s) s = s"
  by (simp add: set_closedDisplayMode_def)

lemma set_closedDisplayMode_legal:
  "v \<in> set (map fst ClosedDisplayMode) \<Longrightarrow> v \<noteq> closedDisplayMode s \<Longrightarrow>
   set_closedDisplayMode v s = s\<lparr>closedDisplayMode := v, updateDomCalls := Suc (updateDomCalls s)\<rparr>"
  by (auto simp: set_closedDisplayMode_def ClosedDisplayMode_truthy_def ClosedDisplayMode_def
      machine_updateDom_def)

text \<open>
  Claim C10 fails on the code. The value \<^verbatim>\<open>toString\<close> is none of the four display modes, yet
  \<^verbatim>\<open>ClosedDisplayMode["toString"]\<close> reads the function inherited from \<^verbatim>\<open>Object.prototype\<close>,
  which is truthy: the setter stores the value and asks for the control to be rendered
  again.
\<close>

theorem set_closedDisplayMode_inherited_name:
  "closedDisplayMode (set_closedDisplayMode ''toString'' initialSurface) = ''toString''
   \<and> updateDomCalls (set_closedDisplayMode ''toString'' initialSurface)
       = Suc (updateDomCalls initialSurface)"
  by (simp add: set_closedDisplayMode_def ClosedDisplayMode_truthy_def ClosedDisplayMode_def
      ObjectPrototype_def machine_updateDom_def initialSurface_def)

end
